theory Spec2Isabelle
  imports Complex_Main "HOL-Library.AList" "HOL-Library.Sublist" "HOL-Library.Stream"
    "HOL-Library.Multiset"
begin

section \<open>The hybrid recommendation engine (class RecommendationEngine)\<close>

text \<open>
  The engine is the second class of \<^verbatim>\<open>server/services/ChatbotService.js\<close>. Its methods
  are embedded one by one, under their own names.

  Conventions of the embedding.
  \<^item> A JavaScript number is a \<open>number\<close>: either \<open>NaN\<close> or a real. Finite doubles are
    idealised as reals (no rounding, no overflow to an infinity); \<open>NaN\<close> is kept, because
    the code produces it from \<^verbatim>\<open>undefined\<close> operands.
  \<^item> A \<^verbatim>\<open>Map\<close> is an association list in insertion order; \<^verbatim>\<open>Map.set\<close> is
    \<^const>\<open>AList.update\<close> (overwrite in place, or append), \<^verbatim>\<open>Map.get\<close> is \<^const>\<open>map_of\<close>.
  \<^item> \<^verbatim>\<open>Array.prototype.sort\<close> is stable; with the comparator
    \<^verbatim>\<open>(a, b) => b.score - a.score\<close> on real scores it is a stable sort by descending score.
  \<^item> A thrown exception is the \<open>Inl\<close> branch of a sum; the reads of the user and product
    stores, the tensor library and the clock are parameters.
\<close>

subsection \<open>Numbers\<close>

datatype number = NaN | Num real

fun add :: "number \<Rightarrow> number \<Rightarrow> number" where
  "add (Num a) (Num b) = Num (a + b)"
| "add _ _ = NaN"

fun mul :: "number \<Rightarrow> number \<Rightarrow> number" where
  "mul (Num a) (Num b) = Num (a * b)"
| "mul _ _ = NaN"

text \<open>The only division of the engine on variable operands is guarded against a zero
  divisor; the quotient by zero is \<open>NaN\<close> here and is never reached.\<close>

fun divide_number :: "number \<Rightarrow> number \<Rightarrow> number" where
  "divide_number (Num a) (Num b) = (if b = 0 then NaN else Num (a / b))"
| "divide_number _ _ = NaN"

fun Math_sqrt :: "number \<Rightarrow> number" where
  "Math_sqrt (Num a) = (if a < 0 then NaN else Num (sqrt a))"
| "Math_sqrt NaN = NaN"

text \<open>\<^verbatim>\<open>Math.max\<close> and \<^verbatim>\<open>Math.min\<close> return \<open>NaN\<close> as soon as one argument is \<open>NaN\<close>.\<close>

fun Math_max :: "number \<Rightarrow> number \<Rightarrow> number" where
  "Math_max (Num a) (Num b) = Num (max a b)"
| "Math_max _ _ = NaN"

fun Math_min :: "number \<Rightarrow> number \<Rightarrow> number" where
  "Math_min (Num a) (Num b) = Num (min a b)"
| "Math_min _ _ = NaN"

text \<open>Reading an array of numbers at an index: past the end the read is
  \<^verbatim>\<open>undefined\<close>, which every arithmetic operation turns into \<open>NaN\<close>.\<close>

definition element :: "number list \<Rightarrow> nat \<Rightarrow> number" where
  "element xs i = (if i < length xs then xs ! i else NaN)"

subsection \<open>cosineSimilarity\<close>

text \<open>
  \<^verbatim>\<open>
  cosineSimilarity(vectorA, vectorB) {
    const dotProduct = vectorA.reduce((sum, a, i) => sum + a * vectorB[i], 0);
    const magnitudeA = Math.sqrt(vectorA.reduce((sum, a) => sum + a * a, 0));
    const magnitudeB = Math.sqrt(vectorB.reduce((sum, b) => sum + b * b, 0));
    if (magnitudeA === 0 || magnitudeB === 0) return 0;
    return dotProduct / (magnitudeA * magnitudeB);
  }
  \<close>
\<close>

definition cosineSimilarity :: "number list \<Rightarrow> number list \<Rightarrow> number" where
  "cosineSimilarity vectorA vectorB =
    (let dotProduct = foldl (\<lambda>sum (a, i). add sum (mul a (element vectorB i))) (Num 0)
                        (zip vectorA [0..<length vectorA]);
         magnitudeA = Math_sqrt (foldl (\<lambda>sum a. add sum (mul a a)) (Num 0) vectorA);
         magnitudeB = Math_sqrt (foldl (\<lambda>sum b. add sum (mul b b)) (Num 0) vectorB)
     in if magnitudeA = Num 0 \<or> magnitudeB = Num 0 then Num 0
        else divide_number dotProduct (mul magnitudeA magnitudeB))"

subsection \<open>Stored documents\<close>

text \<open>
  The fields of the user and product documents that the engine reads
  (\<^verbatim>\<open>server/models/User.js\<close>, \<^verbatim>\<open>server/models/Product.js\<close>). An id is the string
  \<^verbatim>\<open>_id.toString()\<close>; a date is its time value in milliseconds. A field the schema
  does not require is an option, \<open>None\<close> standing for \<^verbatim>\<open>undefined\<close>.
\<close>

record interaction =
  viewedProductId :: "string option"    \<comment> \<open>\<^verbatim>\<open>productId\<close> of a browsing-history entry\<close>
  timestamp :: int
  duration :: "real option"             \<comment> \<open>seconds spent viewing\<close>

record price_range =
  range_min :: real
  range_max :: real

text \<open>
  A Category document is known by its id and by the rest of its fields, as
  \<^verbatim>\<open>util.inspect\<close> prints them; the model \<^verbatim>\<open>Category\<close> is not among the sources. An
  entry of \<^verbatim>\<open>preferences.categories\<close> is an ObjectId as it is stored (\<^verbatim>\<open>User.js\<close>:
  \<^verbatim>\<open>type: mongoose.Schema.Types.ObjectId, ref: 'Category'\<close>), and the Category document
  in its place after \<^verbatim>\<open>populate('preferences.categories')\<close>.
\<close>

record category_document =
  category_id :: string                 \<comment> \<open>\<^verbatim>\<open>_id.toString()\<close>\<close>
  category_fields :: string             \<comment> \<open>the other fields, as printed\<close>

datatype category_ref = ObjectId string | Populated category_document

text \<open>
  \<^verbatim>\<open>cat.toString()\<close>: for an ObjectId its hexadecimal string, the id; for a document
  \<^verbatim>\<open>Document.prototype.toString\<close> of Mongoose, which prints the document as
  \<^verbatim>\<open>util.inspect\<close> does: an object literal of all its fields (quotes and line breaks
  are left out here).
\<close>

definition Document_toString :: "category_document \<Rightarrow> string" where
  "Document_toString d =
     ''{ _id: new ObjectId('' @ category_id d @ ''), '' @ category_fields d @ '' }''"

fun toString :: "category_ref \<Rightarrow> string" where
  "toString (ObjectId i) = i"
| "toString (Populated d) = Document_toString d"

record preferences =
  categories :: "category_ref list"
  brands :: "string list"
  priceRange :: "price_range option"

record user =
  user_id :: string
  browsingHistory :: "interaction list" \<comment> \<open>\<^verbatim>\<open>behaviorData?.browsingHistory || []\<close>\<close>
  recentlyViewed :: "string option list" \<comment> \<open>\<^verbatim>\<open>product\<close> of each entry\<close>
  user_preferences :: "preferences option"
  personalizationScores :: "real list"  \<comment> \<open>\<^verbatim>\<open>fashionStyle || 0\<close>, ..., \<^verbatim>\<open>impulseBuyer || 0\<close>: six\<close>
  totalPurchases :: real                \<comment> \<open>\<^verbatim>\<open>behaviorData.totalPurchases || 0\<close>\<close>
  totalSpent :: real
  averageOrderValue :: real
  timeOfDay :: "real list"              \<comment> \<open>\<^verbatim>\<open>clicks\<close> of each entry of \<^verbatim>\<open>clickPatterns.timeOfDay\<close>\<close>
  dayOfWeek :: "real list"

record product =
  product_id :: string
  price :: real
  category :: "string option"           \<comment> \<open>\<^verbatim>\<open>category._id.toString()\<close>; \<open>None\<close> when \<^verbatim>\<open>populate\<close> left null\<close>
  brand :: string
  season :: "string list"               \<comment> \<open>\<^verbatim>\<open>attributes?.season\<close>, empty when absent\<close>
  name :: string
  description :: string
  views :: real                         \<comment> \<open>\<^verbatim>\<open>analytics?.views || 0\<close>\<close>
  averageRating :: real                 \<comment> \<open>\<^verbatim>\<open>analytics?.averageRating || 0\<close>\<close>
  colors :: "string list"               \<comment> \<open>\<^verbatim>\<open>attributes?.colors\<close>, empty when absent\<close>
  sizes :: "string list"
  materials :: "string list"

datatype error = TypeError | Error string

text \<open>\<^verbatim>\<open>Array.prototype.indexOf\<close>: the first index of the value, \<open>None\<close> for \<^verbatim>\<open>-1\<close>.\<close>

fun indexOf :: "'a list \<Rightarrow> 'a \<Rightarrow> nat option" where
  "indexOf [] x = None"
| "indexOf (y # ys) x = (if y = x then Some 0 else map_option Suc (indexOf ys x))"

subsection \<open>loadUserItemMatrix\<close>

text \<open>
  \<^verbatim>\<open>
  calculateRecencyScore(timestamp) {
    const now = new Date();
    const daysDiff = (now - new Date(timestamp)) / (1000 * 60 * 60 * 24);
    return Math.exp(-daysDiff / 30); // Exponential decay over 30 days
  }
  \<close>
  The clock read \<^verbatim>\<open>new Date()\<close> is the parameter \<open>now\<close>: one build of the matrix is taken
  to happen at one instant, the build time.
\<close>

definition calculateRecencyScore :: "int \<Rightarrow> int \<Rightarrow> real" where
  "calculateRecencyScore now timestamp' =
    (let daysDiff = real_of_int (now - timestamp') / (1000 * 60 * 60 * 24)
     in exp (- daysDiff / 30))"

record interaction_matrix =
  matrix :: "number list list"
  userIds :: "string list"
  productIds :: "string list"

fun toNumber :: "real option \<Rightarrow> number" where
  "toNumber (Some d) = Num d"
| "toNumber None = NaN"

text \<open>
  The inner loop of \<open>loadUserItemMatrix\<close> over one user's browsing history, on that
  user's row:
  \<^verbatim>\<open>
  for (const interaction of browsingHistory) {
    const productIndex = productIds.indexOf(interaction.productId.toString());
    if (productIndex !== -1) {
      // Calculate interaction score based on duration and recency
      const recencyScore = this.calculateRecencyScore(interaction.timestamp);
      const durationScore = Math.min(interaction.duration / 60, 10) / 10; // normalize to 0-1
      matrix[i][productIndex] = Math.max(matrix[i][productIndex], recencyScore * 0.7 + durationScore * 0.3);
    }
  }
  \<close>
  \<^verbatim>\<open>interaction.productId.toString()\<close> throws a TypeError on an entry without productId.
\<close>

fun fillRow :: "int \<Rightarrow> string list \<Rightarrow> interaction list \<Rightarrow> number list \<Rightarrow> error + number list" where
  "fillRow now pids [] row = Inr row"
| "fillRow now pids (interaction # rest) row =
    (case viewedProductId interaction of
       None \<Rightarrow> Inl TypeError
     | Some p \<Rightarrow>
        (case indexOf pids p of
           None \<Rightarrow> fillRow now pids rest row
         | Some productIndex \<Rightarrow>
            (let recencyScore = Num (calculateRecencyScore now (timestamp interaction));
                 durationScore =
                   divide_number
                     (Math_min (divide_number (toNumber (duration interaction)) (Num 60)) (Num 10))
                     (Num 10)
             in fillRow now pids rest
                  (row[productIndex :=
                     Math_max (row ! productIndex)
                       (add (mul recencyScore (Num 0.7)) (mul durationScore (Num 0.3)))]))))"

fun fillMatrix :: "int \<Rightarrow> string list \<Rightarrow> user list \<Rightarrow> error + number list list" where
  "fillMatrix now pids [] = Inr []"
| "fillMatrix now pids (u # us) =
    (case fillRow now pids (browsingHistory u) (replicate (length pids) (Num 0)) of
       Inl e \<Rightarrow> Inl e
     | Inr row \<Rightarrow>
        (case fillMatrix now pids us of
           Inl e \<Rightarrow> Inl e
         | Inr rows \<Rightarrow> Inr (row # rows)))"

text \<open>
  \<open>loadUserItemMatrix\<close> on the documents its two queries returned: \<open>users\<close> for
  \<^verbatim>\<open>User.find({ isActive: true })\<close> and \<open>products\<close> for
  \<^verbatim>\<open>Product.find({ status: 'active' })\<close>. The result is the value assigned to
  \<^verbatim>\<open>this.userItemMatrix\<close>; on \<open>Inl\<close> the method's \<^verbatim>\<open>catch\<close> logs the error and
  assigns nothing.
\<close>

definition loadUserItemMatrix :: "int \<Rightarrow> user list \<Rightarrow> product list \<Rightarrow> error + interaction_matrix" where
  "loadUserItemMatrix now users products =
    (let userIds' = map user_id users;
         productIds' = map product_id products
     in case fillMatrix now productIds' users of
          Inl e \<Rightarrow> Inl e
        | Inr matrix' \<Rightarrow> Inr \<lparr>matrix = matrix', userIds = userIds', productIds = productIds'\<rparr>)"

subsection \<open>Recommendation records\<close>

text \<open>
  The generators return objects \<^verbatim>\<open>{ productId, score, type }\<close>; the merged candidates are
  \<^verbatim>\<open>{ productId, score, sources }\<close>, to which the boost step adds \<^verbatim>\<open>boost\<close>. Scores are
  finite numbers, so reals.
\<close>

record scored =
  productId :: string
  score :: real

record recommendation = scored +
  rtype :: string                       \<comment> \<open>the field \<^verbatim>\<open>type\<close>\<close>

record candidate = scored +
  sources :: "string list"
  boost :: "real option"                \<comment> \<open>\<open>None\<close> while the field is absent\<close>

record source_list =
  recommendations :: "recommendation list"
  weight :: real

text \<open>\<^verbatim>\<open>.sort((a, b) => b.score - a.score)\<close>\<close>

definition sortByScore :: "'a scored_scheme list \<Rightarrow> 'a scored_scheme list" where
  "sortByScore recs = sort_key (\<lambda>r. - score r) recs"

subsection \<open>combineRecommendations\<close>

text \<open>
  \<^verbatim>\<open>
  combineRecommendations(sources) {
    const combined = new Map();
    for (const { recommendations, weight } of sources) {
      for (const rec of recommendations) {
        const weightedScore = rec.score * weight;
        if (combined.has(rec.productId)) {
          const existing = combined.get(rec.productId);
          existing.score += weightedScore;
          existing.sources.push(rec.type);
        } else {
          combined.set(rec.productId, {
            productId: rec.productId,
            score: weightedScore,
            sources: [rec.type]
          });
        }
      }
    }
    return Array.from(combined.values())
      .sort((a, b) => b.score - a.score);
  }
  \<close>
  \<open>accumulate\<close> is the body of the inner loop; the update of \<^verbatim>\<open>existing\<close> in place keeps
  the entry at its position in the map.
\<close>

definition accumulate ::
  "real \<Rightarrow> recommendation \<Rightarrow> (string \<times> candidate) list \<Rightarrow> (string \<times> candidate) list" where
  "accumulate weight' rec combined =
    (let weightedScore = score rec * weight'
     in case map_of combined (productId rec) of
          Some existing \<Rightarrow>
            AList.update (productId rec)
              (existing\<lparr>score := score existing + weightedScore,
                        sources := sources existing @ [rtype rec]\<rparr>) combined
        | None \<Rightarrow>
            AList.update (productId rec)
              \<lparr>productId = productId rec, score = weightedScore, sources = [rtype rec],
               boost = None\<rparr> combined)"

definition mergeSources :: "source_list list \<Rightarrow> (string \<times> candidate) list" where
  "mergeSources srcs =
     fold (\<lambda>src combined. fold (accumulate (weight src)) (recommendations src) combined) srcs []"

definition combineRecommendations :: "source_list list \<Rightarrow> candidate list" where
  "combineRecommendations srcs = sortByScore (map snd (mergeSources srcs))"

subsection \<open>The external collaborators\<close>

text \<open>
  The reads the engine awaits, as parameters: each is the outcome of the call, \<open>Inl\<close> when
  it throws.
  \<^item> \<open>findUser userId\<close>: the stored document that \<^verbatim>\<open>User.findById(userId)\<close> reads, \<open>Inr None\<close>
    when no such user exists, \<open>Inl\<close> when the read or the query of its \<^verbatim>\<open>populate\<close> throws.
  \<^item> \<open>findCategory id\<close>: the Category document of an id, which \<^verbatim>\<open>populate\<close> reads.
  \<^item> \<open>findProductsByIds ids\<close>: \<^verbatim>\<open>Product.find({ _id: { $in: ids } }).populate('category')\<close>.
  \<^item> \<open>trendingProducts\<close>: the ids of \<^verbatim>\<open>Product.find({ status: 'active' })\<close> sorted by
    trending score then views, all of them, before \<^verbatim>\<open>.limit(limit)\<close>.
  \<^item> \<open>featuredProducts\<close>: the ids of
    \<^verbatim>\<open>Product.find({ status: 'active', featured: true })\<close> sorted by views, all of them,
    before \<^verbatim>\<open>.limit(limit)\<close>.
  \<^item> \<open>contentBased userId limit\<close>: the outcome of
    \<^verbatim>\<open>getContentBasedRecommendations(userId, limit)\<close>, which is computed by the tensor
    library on the stored embeddings.
  \<^item> \<open>activeUsers\<close> and \<open>activeProducts\<close>: \<^verbatim>\<open>User.find({ isActive: true })\<close> and
    \<^verbatim>\<open>Product.find({ status: 'active' })\<close>, the two reads of \<open>loadUserItemMatrix\<close>.
  \<^item> \<open>currentTime\<close>: the time value of \<^verbatim>\<open>new Date()\<close>; \<open>currentMonth\<close>:
    \<^verbatim>\<open>new Date().getMonth()\<close>, from 0 to 11.
\<close>

record world =
  findUser :: "string \<Rightarrow> error + user option"
  findCategory :: "string \<Rightarrow> category_document option"
  findProductsByIds :: "string list \<Rightarrow> error + product list"
  trendingProducts :: "error + string list"
  featuredProducts :: "error + string list"
  contentBased :: "string \<Rightarrow> nat \<Rightarrow> error + recommendation list"
  activeUsers :: "error + user list"
  activeProducts :: "error + product list"
  currentTime :: int
  currentMonth :: nat

text \<open>\<^verbatim>\<open>.limit(n)\<close> on a query: at most \<open>n\<close> documents, and for MongoDB a limit of 0 is
  no limit.\<close>

definition Query_limit :: "nat \<Rightarrow> 'a list \<Rightarrow> 'a list" where
  "Query_limit n docs = (if n = 0 then docs else take n docs)"

text \<open>
  \<^verbatim>\<open>populate('preferences.categories')\<close> puts, in the place of each id of the array, the
  Category document read for it; an id without a document is removed from the array.
\<close>

definition populateCategory :: "world \<Rightarrow> category_ref \<Rightarrow> category_ref list" where
  "populateCategory w cat =
    (case cat of
       ObjectId i \<Rightarrow> (case findCategory w i of None \<Rightarrow> [] | Some d \<Rightarrow> [Populated d])
     | Populated d \<Rightarrow> [Populated d])"

definition populate :: "world \<Rightarrow> user \<Rightarrow> user" where
  "populate w u =
     u\<lparr>user_preferences :=
         map_option (\<lambda>p. p\<lparr>categories := concat (map (populateCategory w) (categories p))\<rparr>)
           (user_preferences u)\<rparr>"

text \<open>A callback that may throw, mapped over an array: the first throw ends the loop.\<close>

fun mapE :: "('a \<Rightarrow> error + 'b) \<Rightarrow> 'a list \<Rightarrow> error + 'b list" where
  "mapE f [] = Inr []"
| "mapE f (x # xs) =
    (case f x of
       Inl e \<Rightarrow> Inl e
     | Inr y \<Rightarrow> (case mapE f xs of Inl e \<Rightarrow> Inl e | Inr ys \<Rightarrow> Inr (y # ys)))"

subsection \<open>getTrendingRecommendations and getFallbackRecommendations\<close>

text \<open>
  \<^verbatim>\<open>
  async getTrendingRecommendations(limit) {
    try {
      const products = await Product.find({ status: 'active' })
        .sort({ 'analytics.trendingScore': -1, 'analytics.views': -1 })
        .limit(limit)
        .select('_id');
      return products.map(product => ({
        productId: product._id.toString(),
        score: 0.8, // Base trending score
        type: 'trending'
      }));
    } catch (error) {
      console.error('Error getting trending recommendations:', error);
      return [];
    }
  }
  \<close>
  \<open>getFallbackRecommendations\<close> is the same on the featured products, with score 0.5 and
  type \<^verbatim>\<open>'fallback'\<close>. Both return \<^verbatim>\<open>[]\<close> from their \<^verbatim>\<open>catch\<close>.
\<close>

definition getTrendingRecommendations :: "world \<Rightarrow> nat \<Rightarrow> error + recommendation list" where
  "getTrendingRecommendations w limit =
    (case trendingProducts w of
       Inr ids \<Rightarrow> Inr (map (\<lambda>i. \<lparr>productId = i, score = 0.8, rtype = ''trending''\<rparr>)
                      (Query_limit limit ids))
     | Inl e \<Rightarrow> Inr [])"

definition getFallbackRecommendations :: "world \<Rightarrow> nat \<Rightarrow> error + recommendation list" where
  "getFallbackRecommendations w limit =
    (case featuredProducts w of
       Inr ids \<Rightarrow> Inr (map (\<lambda>i. \<lparr>productId = i, score = 0.5, rtype = ''fallback''\<rparr>)
                      (Query_limit limit ids))
     | Inl e \<Rightarrow> Inr [])"

subsection \<open>applyPersonalizationBoost\<close>

text \<open>
  \<^verbatim>\<open>
  getCurrentSeason() {
    const month = new Date().getMonth();
    if (month >= 2 && month <= 4) return 'spring';
    if (month >= 5 && month <= 7) return 'summer';
    if (month >= 8 && month <= 10) return 'fall';
    return 'winter';
  }
  \<close>
\<close>

definition getCurrentSeason :: "nat \<Rightarrow> string" where
  "getCurrentSeason month =
    (if month \<ge> 2 \<and> month \<le> 4 then ''spring''
     else if month \<ge> 5 \<and> month \<le> 7 then ''summer''
     else if month \<ge> 8 \<and> month \<le> 10 then ''fall''
     else ''winter'')"

text \<open>\<^verbatim>\<open>user.preferences?.categories || []\<close>, \<^verbatim>\<open>user.preferences?.brands || []\<close> and
  \<^verbatim>\<open>user.preferences?.priceRange || { min: 0, max: 10000 }\<close>\<close>

definition preferredCategories :: "user \<Rightarrow> category_ref list" where
  "preferredCategories u = (case user_preferences u of None \<Rightarrow> [] | Some p \<Rightarrow> categories p)"

definition preferredBrands :: "user \<Rightarrow> string list" where
  "preferredBrands u = (case user_preferences u of None \<Rightarrow> [] | Some p \<Rightarrow> brands p)"

definition preferredPriceRange :: "user \<Rightarrow> price_range" where
  "preferredPriceRange u =
    (case user_preferences u of
       None \<Rightarrow> \<lparr>range_min = 0, range_max = 10000\<rparr>
     | Some p \<Rightarrow>
        (case priceRange p of
           None \<Rightarrow> \<lparr>range_min = 0, range_max = 10000\<rparr>
         | Some r \<Rightarrow> r))"

text \<open>
  The callback of \<^verbatim>\<open>recommendations.map\<close> for a candidate whose product document was
  found:
  \<^verbatim>\<open>
  let boost = 1;
  const preferredCategories = user.preferences?.categories || [];
  if (preferredCategories.some(cat => cat.toString() === product.category._id.toString())) {
    boost *= 1.3;
  }
  const priceRange = user.preferences?.priceRange || { min: 0, max: 10000 };
  if (product.price >= priceRange.min && product.price <= priceRange.max) {
    boost *= 1.2;
  }
  const preferredBrands = user.preferences?.brands || [];
  if (preferredBrands.includes(product.brand)) {
    boost *= 1.4;
  }
  const currentSeason = this.getCurrentSeason();
  if (product.attributes?.season?.includes(currentSeason)) {
    boost *= 1.1;
  }
  return { ...rec, score: rec.score * boost, boost };
  \<close>
  The callback of \<^verbatim>\<open>some\<close> runs only on a non-empty list; it throws a TypeError when
  \<^verbatim>\<open>product.category\<close> is null.
\<close>

definition categoryPreferred :: "category_ref list \<Rightarrow> product \<Rightarrow> error + bool" where
  "categoryPreferred cats product' =
    (case cats of
       [] \<Rightarrow> Inr False
     | _ # _ \<Rightarrow>
        (case category product' of
           None \<Rightarrow> Inl TypeError
         | Some c \<Rightarrow> Inr (\<exists>cat\<in>set cats. toString cat = c)))"

definition boostCandidate :: "user \<Rightarrow> nat \<Rightarrow> product \<Rightarrow> candidate \<Rightarrow> error + candidate" where
  "boostCandidate u month product' rec =
    (case categoryPreferred (preferredCategories u) product' of
       Inl e \<Rightarrow> Inl e
     | Inr inCategory \<Rightarrow>
        (let boost1 = (if inCategory then 1 * 1.3 else 1);
             priceRange' = preferredPriceRange u;
             boost2 = (if price product' \<ge> range_min priceRange' \<and>
                          price product' \<le> range_max priceRange'
                       then boost1 * 1.2 else boost1);
             boost3 = (if brand product' \<in> set (preferredBrands u) then boost2 * 1.4 else boost2);
             currentSeason = getCurrentSeason month;
             boost4 = (if currentSeason \<in> set (season product') then boost3 * 1.1 else boost3)
         in Inr (rec\<lparr>score := score rec * boost4, boost := Some boost4\<rparr>)))"

text \<open>
  \<^verbatim>\<open>
  async applyPersonalizationBoost(recommendations, user) {
    const products = await Product.find({
      _id: { $in: recommendations.map(r => r.productId) }
    }).populate('category');
    const productMap = new Map(products.map(p => [p._id.toString(), p]));
    return recommendations.map(rec => {
      const product = productMap.get(rec.productId);
      if (!product) return rec;
      ...
    }).sort((a, b) => b.score - a.score);
  }
  \<close>
\<close>

definition applyPersonalizationBoost :: "world \<Rightarrow> candidate list \<Rightarrow> user \<Rightarrow> error + candidate list" where
  "applyPersonalizationBoost w recs u =
    (case findProductsByIds w (map productId recs) of
       Inl e \<Rightarrow> Inl e
     | Inr products \<Rightarrow>
        (let productMap = fold (\<lambda>p m. AList.update (product_id p) p m) products []
         in case mapE (\<lambda>rec. case map_of productMap (productId rec) of
                                None \<Rightarrow> Inr rec
                              | Some product' \<Rightarrow> boostCandidate u (currentMonth w) product' rec)
                   recs of
              Inl e \<Rightarrow> Inl e
            | Inr boosted \<Rightarrow> Inr (sortByScore boosted)))"

subsection \<open>getCollaborativeRecommendations\<close>

text \<open>
  The rows of an \<^verbatim>\<open>ml-matrix\<close> all have the number of columns of the matrix, and
  \<open>loadUserItemMatrix\<close> builds one row per user id and one column per product id.
\<close>

definition wf_matrix :: "interaction_matrix \<Rightarrow> bool" where
  "wf_matrix m \<longleftrightarrow>
     length (matrix m) = length (userIds m) \<and>
     list_all (\<lambda>row. length row = length (productIds m)) (matrix m)"

text \<open>\<^verbatim>\<open>matrix.getRow(index)\<close> throws a RangeError on an index that is not a row.\<close>

definition getRow :: "interaction_matrix \<Rightarrow> nat \<Rightarrow> error + number list" where
  "getRow m i =
    (if i < length (matrix m) then Inr (matrix m ! i) else Inl (Error ''Row index out of range''))"

text \<open>
  The first loop:
  \<^verbatim>\<open>
  for (let i = 0; i < this.userItemMatrix.matrix.rows; i++) {
    if (i !== userIndex) {
      const otherVector = this.userItemMatrix.matrix.getRow(i);
      const similarity = this.cosineSimilarity(userVector, otherVector);
      if (similarity > 0.1) {
        similarities.push({ userIndex: i, similarity });
      }
    }
  }
  \<close>
  A similarity that is pushed passed \<^verbatim>\<open>similarity > 0.1\<close>, so it is a real.
\<close>

definition similarUsers :: "interaction_matrix \<Rightarrow> nat \<Rightarrow> number list \<Rightarrow> (nat \<times> real) list" where
  "similarUsers m userIndex userVector =
     concat (map (\<lambda>i. if i \<noteq> userIndex
                       then (case cosineSimilarity userVector (matrix m ! i) of
                               Num similarity \<Rightarrow> if similarity > 0.1 then [(i, similarity)] else []
                             | NaN \<Rightarrow> [])
                       else [])
               [0..<length (matrix m)])"

text \<open>
  The body of the loop over \<^verbatim>\<open>productIndex\<close>:
  \<^verbatim>\<open>
  if (userVector[productIndex] === 0 && similarUserVector[productIndex] > 0) {
    const productId = this.userItemMatrix.productIds[productIndex];
    const score = similarUserVector[productIndex] * similarity;
    if (recommendations.has(productId)) {
      recommendations.set(productId, recommendations.get(productId) + score);
    } else {
      recommendations.set(productId, score);
    }
  }
  \<close>
\<close>

definition recommendProduct ::
  "interaction_matrix \<Rightarrow> number list \<Rightarrow> number list \<Rightarrow> real \<Rightarrow> nat \<Rightarrow>
   (string \<times> real) list \<Rightarrow> (string \<times> real) list" where
  "recommendProduct m userVector similarUserVector similarity productIndex recs =
    (case element similarUserVector productIndex of
       Num cell \<Rightarrow>
        (if element userVector productIndex = Num 0 \<and> cell > 0
         then (let productId' = productIds m ! productIndex;
                   score' = cell * similarity
               in case map_of recs productId' of
                    Some old \<Rightarrow> AList.update productId' (old + score') recs
                  | None \<Rightarrow> AList.update productId' score' recs)
         else recs)
     | NaN \<Rightarrow> recs)"

text \<open>
  \<^verbatim>\<open>
  async getCollaborativeRecommendations(userId, limit) {
    if (!this.userItemMatrix) return [];
    const userIndex = this.userItemMatrix.userIds.indexOf(userId);
    if (userIndex === -1) return [];
    const userVector = this.userItemMatrix.matrix.getRow(userIndex);
    const similarities = [];
    ...
    similarities.sort((a, b) => b.similarity - a.similarity);
    const recommendations = new Map();
    const topSimilarUsers = similarities.slice(0, 10);
    for (const { userIndex: similarUserIndex, similarity } of topSimilarUsers) {
      const similarUserVector = this.userItemMatrix.matrix.getRow(similarUserIndex);
      for (let productIndex = 0; productIndex < similarUserVector.length; productIndex++) {
        ...
      }
    }
    return Array.from(recommendations.entries())
      .map(([productId, score]) => ({ productId, score, type: 'collaborative' }))
      .sort((a, b) => b.score - a.score)
      .slice(0, limit);
  }
  \<close>
  The limit is a count, a natural number, and \<^verbatim>\<open>slice(0, limit)\<close> is \<open>take limit\<close>.
\<close>

definition getCollaborativeRecommendations ::
  "interaction_matrix option \<Rightarrow> string \<Rightarrow> nat \<Rightarrow> error + recommendation list" where
  "getCollaborativeRecommendations userItemMatrix userId limit =
    (case userItemMatrix of
       None \<Rightarrow> Inr []
     | Some m \<Rightarrow>
        (case indexOf (userIds m) userId of
           None \<Rightarrow> Inr []
         | Some userIndex \<Rightarrow>
            (case getRow m userIndex of
               Inl e \<Rightarrow> Inl e
             | Inr userVector \<Rightarrow>
                (let similarities = similarUsers m userIndex userVector;
                     sorted' = sort_key (\<lambda>(i, similarity). - similarity) similarities;
                     topSimilarUsers = take 10 sorted';
                     recs = fold (\<lambda>(similarUserIndex, similarity) recs.
                                    let similarUserVector = matrix m ! similarUserIndex
                                    in fold (recommendProduct m userVector similarUserVector similarity)
                                         [0..<length similarUserVector] recs)
                              topSimilarUsers []
                 in Inr (take limit
                          (sortByScore
                            (map (\<lambda>(productId', score').
                                    \<lparr>productId = productId', score = score', rtype = ''collaborative''\<rparr>)
                               recs)))))))"

subsection \<open>getRecommendations\<close>

text \<open>
  What \<open>getRecommendations\<close> resolves to: the boosted candidates of the normal path, or the
  list of the fallback generator.
\<close>

datatype response = Personalized "candidate list" | FallbackList "recommendation list"

fun response_ids :: "response \<Rightarrow> string list" where
  "response_ids (Personalized recs) = map productId recs"
| "response_ids (FallbackList recs) = map productId recs"

text \<open>
  The state of the engine that \<open>getRecommendations\<close> reads and writes: the matrix,
  \<^verbatim>\<open>null\<close> until one is loaded, and the flag. The two maps of embeddings are read by
  \<open>getContentBasedRecommendations\<close> only, whose outcome is a parameter.
  \<^verbatim>\<open>
  async initialize() {
    try {
      await this.loadUserItemMatrix();
      await this.computeProductEmbeddings();
      await this.computeUserEmbeddings();
      this.isInitialized = true;
    } catch (error) {
      console.error('Failed to initialize Recommendation Engine:', error);
    }
  }
  \<close>
  Each of the three methods wraps its whole body in \<^verbatim>\<open>try\<close> and only logs in its
  \<^verbatim>\<open>catch\<close>: \<open>loadUserItemMatrix\<close> assigns \<^verbatim>\<open>this.userItemMatrix\<close> as the last statement
  of its \<^verbatim>\<open>try\<close>, so a throw of one of its reads or of the loop leaves the matrix as it
  was, and \<open>initialize\<close> goes on and sets the flag.
\<close>

record engine =
  userItemMatrix :: "interaction_matrix option"
  isInitialized :: bool

definition initialize :: "world \<Rightarrow> engine \<Rightarrow> engine" where
  "initialize w eng =
    (let built = (case activeUsers w of
                    Inl e \<Rightarrow> Inl e
                  | Inr users \<Rightarrow>
                     (case activeProducts w of
                        Inl e \<Rightarrow> Inl e
                      | Inr products \<Rightarrow> loadUserItemMatrix (currentTime w) users products));
         loaded = (case built of
                     Inr m \<Rightarrow> eng\<lparr>userItemMatrix := Some m\<rparr>
                   | Inl e \<Rightarrow> eng)
     in loaded\<lparr>isInitialized := True\<rparr>)"

text \<open>
  The \<^verbatim>\<open>try\<close> block of \<open>getRecommendations\<close> after the \<^verbatim>\<open>isInitialized\<close> check, on the
  matrix that is then current, the parameter \<open>matrix'\<close>:
  \<^verbatim>\<open>
  const user = await User.findById(userId)
    .populate('preferences.categories')
    .select('behaviorData preferences personalizationScores recentlyViewed');
  if (!user) {
    throw new Error('User not found');
  }
  const collaborativeRecs = await this.getCollaborativeRecommendations(userId, limit * 2);
  const contentBasedRecs = await this.getContentBasedRecommendations(userId, limit * 2);
  const trendingRecs = await this.getTrendingRecommendations(limit);
  const combinedRecs = this.combineRecommendations([
    { recommendations: collaborativeRecs, weight: 0.4 },
    { recommendations: contentBasedRecs, weight: 0.4 },
    { recommendations: trendingRecs, weight: 0.2 }
  ]);
  let filteredRecs = combinedRecs;
  if (excludeViewed) {
    const viewedIds = user.recentlyViewed.map(item => item.product.toString());
    filteredRecs = combinedRecs.filter(rec => !viewedIds.includes(rec.productId));
  }
  const personalizedRecs = await this.applyPersonalizationBoost(filteredRecs, user);
  return personalizedRecs.slice(0, limit);
  \<close>
\<close>

definition excludeRecentlyViewed :: "user \<Rightarrow> bool \<Rightarrow> candidate list \<Rightarrow> error + candidate list" where
  "excludeRecentlyViewed u excludeViewed combinedRecs =
    (if excludeViewed
     then (case mapE (\<lambda>item. case item of None \<Rightarrow> Inl TypeError | Some p \<Rightarrow> Inr p)
                  (recentlyViewed u) of
             Inl e \<Rightarrow> Inl e
           | Inr viewedIds \<Rightarrow> Inr (filter (\<lambda>rec. productId rec \<notin> set viewedIds) combinedRecs))
     else Inr combinedRecs)"

definition getRecommendations_try ::
  "world \<Rightarrow> interaction_matrix option \<Rightarrow> string \<Rightarrow> nat \<Rightarrow> bool \<Rightarrow> error + candidate list" where
  "getRecommendations_try w matrix' userId limit excludeViewed =
    (case findUser w userId of
       Inl e \<Rightarrow> Inl e
     | Inr None \<Rightarrow> Inl (Error ''User not found'')
     | Inr (Some stored) \<Rightarrow>
    (let u = populate w stored
     in case getCollaborativeRecommendations matrix' userId (limit * 2) of
       Inl e \<Rightarrow> Inl e
     | Inr collaborativeRecs \<Rightarrow>
    (case contentBased w userId (limit * 2) of
       Inl e \<Rightarrow> Inl e
     | Inr contentBasedRecs \<Rightarrow>
    (case getTrendingRecommendations w limit of
       Inl e \<Rightarrow> Inl e
     | Inr trendingRecs \<Rightarrow>
    (let combinedRecs = combineRecommendations
           [\<lparr>recommendations = collaborativeRecs, weight = 0.4\<rparr>,
            \<lparr>recommendations = contentBasedRecs, weight = 0.4\<rparr>,
            \<lparr>recommendations = trendingRecs, weight = 0.2\<rparr>]
     in case excludeRecentlyViewed u excludeViewed combinedRecs of
          Inl e \<Rightarrow> Inl e
        | Inr filteredRecs \<Rightarrow>
           (case applyPersonalizationBoost w filteredRecs u of
              Inl e \<Rightarrow> Inl e
            | Inr personalizedRecs \<Rightarrow> Inr (take limit personalizedRecs)))))))"

text \<open>
  \<^verbatim>\<open>
  async getRecommendations(userId, limit = 10, excludeViewed = true) {
    try {
      if (!this.isInitialized) {
        await this.initialize();
      }
      ...
    } catch (error) {
      console.error('Error getting recommendations:', error);
      return await this.getFallbackRecommendations(limit);
    }
  }
  \<close>
  The call returns its outcome and the state in which it leaves the engine.
\<close>

definition getRecommendations ::
  "world \<Rightarrow> engine \<Rightarrow> string \<Rightarrow> nat \<Rightarrow> bool \<Rightarrow> (error + response) \<times> engine" where
  "getRecommendations w eng userId limit excludeViewed =
    (let eng' = (if \<not> isInitialized eng then initialize w eng else eng)
     in (case getRecommendations_try w (userItemMatrix eng') userId limit excludeViewed of
           Inr recs \<Rightarrow> Inr (Personalized recs)
         | Inl error' \<Rightarrow>
            (case getFallbackRecommendations w limit of
               Inl e \<Rightarrow> Inl e
             | Inr recs \<Rightarrow> Inr (FallbackList recs)),
         eng'))"

subsection \<open>The feature encoders\<close>

text \<open>
  \<^verbatim>\<open>Math.random()\<close> reads the state of the runtime's generator: the state is a stream of
  the values still to be drawn, and a call returns the first and leaves the rest.
\<close>

type_synonym rng = "real stream"

definition Math_random :: "rng \<Rightarrow> real \<times> rng" where
  "Math_random g = (shd g, stl g)"

text \<open>
  \<^verbatim>\<open>
  encodeCategoryFeatures(category) {
    // Simplified category encoding - in production, use proper one-hot encoding
    return [Math.random(), Math.random(), Math.random()]; // Placeholder
  }
  \<close>
\<close>

definition encodeCategoryFeatures :: "rng \<Rightarrow> string option \<Rightarrow> real list \<times> rng" where
  "encodeCategoryFeatures g category' =
    (let (a, g1) = Math_random g;
         (b, g2) = Math_random g1;
         (c, g3) = Math_random g2
     in ([a, b, c], g3))"

text \<open>
  \<^verbatim>\<open>
  encodeAttributeFeatures(attributes) {
    const features = [];
    features.push((attributes?.colors?.length || 0) / 10);
    features.push((attributes?.sizes?.length || 0) / 10);
    features.push((attributes?.materials?.length || 0) / 5);
    return features;
  }
  \<close>
\<close>

definition encodeAttributeFeatures :: "product \<Rightarrow> real list" where
  "encodeAttributeFeatures p =
     [real (length (colors p)) / 10, real (length (sizes p)) / 10, real (length (materials p)) / 5]"

text \<open>
  \<^verbatim>\<open>
  encodeSeasonalFeatures(seasons) {
    const seasonMap = { spring: 0, summer: 1, fall: 2, winter: 3 };
    const features = [0, 0, 0, 0];
    seasons.forEach(season => {
      if (seasonMap[season] !== undefined) {
        features[seasonMap[season]] = 1;
      }
    });
    return features;
  }
  \<close>
\<close>

definition seasonMap :: "string \<Rightarrow> nat option" where
  "seasonMap s =
     (if s = ''spring'' then Some 0 else if s = ''summer'' then Some 1
      else if s = ''fall'' then Some 2 else if s = ''winter'' then Some 3 else None)"

definition encodeSeasonalFeatures :: "string list \<Rightarrow> real list" where
  "encodeSeasonalFeatures seasons =
     fold (\<lambda>season' features. case seasonMap season' of
                                  Some i \<Rightarrow> features[i := 1]
                                | None \<Rightarrow> features)
       seasons [0, 0, 0, 0]"

text \<open>
  \<^verbatim>\<open>
  async createProductEmbedding(product) {
    const features = [];
    const priceNormalized = Math.min(product.price / 1000, 1);
    features.push(priceNormalized);
    const brandPopularity = (product.analytics?.views || 0) / 10000;
    features.push(Math.min(brandPopularity, 1));
    features.push((product.analytics?.averageRating || 0) / 5);
    const categoryFeatures = this.encodeCategoryFeatures(product.category);
    features.push(...categoryFeatures);
    const attributeFeatures = this.encodeAttributeFeatures(product.attributes);
    features.push(...attributeFeatures);
    const seasonalFeatures = this.encodeSeasonalFeatures(product.attributes?.season || []);
    features.push(...seasonalFeatures);
    const textFeatures = await this.extractTextFeatures(product.name + ' ' + product.description);
    features.push(...textFeatures);
    return tf.tensor1d(features);
  }
  \<close>
  The tensor is the list of its entries. \<open>extractTextFeatures\<close> counts words and matches
  of two regular expressions in the text; it reads nothing but the text and is the
  parameter \<open>textFeatures\<close>, a function of the text. The method also returns the state in which
  it leaves the generator.
\<close>

definition createProductEmbedding ::
  "(string \<Rightarrow> real list) \<Rightarrow> rng \<Rightarrow> product \<Rightarrow> real list \<times> rng" where
  "createProductEmbedding textFeatures g p =
    (let priceNormalized = min (price p / 1000) 1;
         brandPopularity = views p / 10000;
         (categoryFeatures, g') = encodeCategoryFeatures g (category p);
         attributeFeatures = encodeAttributeFeatures p;
         seasonalFeatures = encodeSeasonalFeatures (season p)
     in ([priceNormalized, min brandPopularity 1, averageRating p / 5]
           @ categoryFeatures @ attributeFeatures @ seasonalFeatures
           @ textFeatures (name p @ '' '' @ description p),
         g'))"

text \<open>
  \<^verbatim>\<open>
  encodeCategoryPreferences(categories) {
    // Simplified category preference encoding
    return [categories.length / 10, Math.random(), Math.random()];
  }
  encodeTimePatterns(clickPatterns) {
    const timeOfDay = clickPatterns.timeOfDay || [];
    const dayOfWeek = clickPatterns.dayOfWeek || [];
    return [
      timeOfDay.length > 0 ? timeOfDay.reduce((sum, t) => sum + t.clicks, 0) / 100 : 0,
      dayOfWeek.length > 0 ? dayOfWeek.reduce((sum, d) => sum + d.clicks, 0) / 100 : 0
    ];
  }
  \<close>
\<close>

definition encodeCategoryPreferences :: "rng \<Rightarrow> category_ref list \<Rightarrow> real list \<times> rng" where
  "encodeCategoryPreferences g categories' =
    (let (a, g1) = Math_random g;
         (b, g2) = Math_random g1
     in ([real (length categories') / 10, a, b], g2))"

definition encodeTimePatterns :: "user \<Rightarrow> real list" where
  "encodeTimePatterns u =
     [if length (timeOfDay u) > 0 then foldl (\<lambda>sum clicks. sum + clicks) 0 (timeOfDay u) / 100 else 0,
      if length (dayOfWeek u) > 0 then foldl (\<lambda>sum clicks. sum + clicks) 0 (dayOfWeek u) / 100 else 0]"

text \<open>
  \<^verbatim>\<open>
  async createUserEmbedding(user) {
    const features = [];
    const priceRange = user.preferences?.priceRange || { min: 0, max: 1000 };
    features.push(priceRange.min / 1000, priceRange.max / 1000);
    const scores = user.personalizationScores || {};
    features.push(scores.fashionStyle || 0, ..., scores.impulseBuyer || 0);
    const behavior = user.behaviorData || {};
    features.push(
      Math.min((behavior.totalPurchases || 0) / 50, 1),
      Math.min((behavior.totalSpent || 0) / 10000, 1),
      Math.min((behavior.averageOrderValue || 0) / 500, 1)
    );
    const categoryPrefs = this.encodeCategoryPreferences(user.preferences?.categories || []);
    features.push(...categoryPrefs);
    const timeFeatures = this.encodeTimePatterns(behavior.clickPatterns || {});
    features.push(...timeFeatures);
    return tf.tensor1d(features);
  }
  \<close>
\<close>

definition createUserEmbedding :: "rng \<Rightarrow> user \<Rightarrow> real list \<times> rng" where
  "createUserEmbedding g u =
    (let priceRange' = (case user_preferences u of
                          None \<Rightarrow> \<lparr>range_min = 0, range_max = 1000\<rparr>
                        | Some p \<Rightarrow> (case priceRange p of
                                      None \<Rightarrow> \<lparr>range_min = 0, range_max = 1000\<rparr>
                                    | Some r \<Rightarrow> r));
         (categoryPrefs, g') = encodeCategoryPreferences g (preferredCategories u);
         timeFeatures = encodeTimePatterns u
     in ([range_min priceRange' / 1000, range_max priceRange' / 1000]
           @ personalizationScores u
           @ [min (totalPurchases u / 50) 1, min (totalSpent u / 10000) 1,
              min (averageOrderValue u / 500) 1]
           @ categoryPrefs @ timeFeatures,
         g'))"

subsection \<open>Reference formulas, from the words of the specification\<close>

text \<open>The interaction score of the specification for an event of age
  \<open>days_since_event\<close> and duration \<open>d\<close> seconds:
  \<^verbatim>\<open>exp(-days_since_event/30)*0.7 + (min(duration_seconds/60,10)/10)*0.3\<close>, the age being
  the difference of the two time values in days.\<close>

definition score_formula :: "int \<Rightarrow> int \<Rightarrow> real \<Rightarrow> real" where
  "score_formula now ts d =
     exp (- (real_of_int (now - ts) / 86400000) / 30) * 0.7 + (min (d / 60) 10 / 10) * 0.3"

text \<open>The order of first appearance: the elements of \<open>xs\<close> that are not in \<open>seen\<close>,
  each once, appended to \<open>seen\<close> in the order in which they first occur.\<close>

definition firstSeen :: "'a list \<Rightarrow> 'a list \<Rightarrow> 'a list" where
  "firstSeen seen xs = fold (\<lambda>x seen. if x \<in> set seen then seen else seen @ [x]) xs seen"

text \<open>The calendar seasons and the boost of the specification: "multiply by 1.3 if the
  product's category is in the user's preferred categories; by 1.2 if price falls within
  the user's preferred range; by 1.4 if the brand is in the user's preferred brands; by
  1.1 if the product's season list includes the current calendar season (spring = months
  2-4, summer = 5-7, fall = 8-10, winter otherwise)". \<open>category_of\<close> is the category that
  an entry of the preferred categories stands for, stored or populated.
  \<open>claimed_boosted\<close> applies the boost to a candidate, given the product documents that
  were found.\<close>

fun category_of :: "category_ref \<Rightarrow> string" where
  "category_of (ObjectId i) = i"
| "category_of (Populated d) = category_id d"

definition claimed_season :: "nat \<Rightarrow> string" where
  "claimed_season month =
     (if month \<in> {2..4} then ''spring''
      else if month \<in> {5..7} then ''summer''
      else if month \<in> {8..10} then ''fall''
      else ''winter'')"

definition claimed_boost :: "user \<Rightarrow> nat \<Rightarrow> product \<Rightarrow> real" where
  "claimed_boost u month p =
     (if (case category p of
            None \<Rightarrow> False
          | Some c \<Rightarrow> c \<in> set (map category_of (preferredCategories u)))
      then 1.3 else 1) *
     (if range_min (preferredPriceRange u) \<le> price p \<and> price p \<le> range_max (preferredPriceRange u)
      then 1.2 else 1) *
     (if brand p \<in> set (preferredBrands u) then 1.4 else 1) *
     (if claimed_season month \<in> set (season p) then 1.1 else 1)"

definition claimed_boosted :: "user \<Rightarrow> nat \<Rightarrow> product list \<Rightarrow> candidate \<Rightarrow> candidate" where
  "claimed_boosted u month products rec =
     (case find (\<lambda>p. product_id p = productId rec) products of
        None \<Rightarrow> rec
      | Some p \<Rightarrow> rec\<lparr>score := score rec * claimed_boost u month p,
                       boost := Some (claimed_boost u month p)\<rparr>)"

text \<open>The cosine similarity of the specification: "dot product over product of L2 norms;
  similarity defined as 0 if either vector has zero norm", on vectors of reals.\<close>

definition dot_product :: "real list \<Rightarrow> real list \<Rightarrow> real" where
  "dot_product a b = (\<Sum>(x, y)\<leftarrow>zip a b. x * y)"

definition l2_norm :: "real list \<Rightarrow> real" where
  "l2_norm a = sqrt (\<Sum>x\<leftarrow>a. x ^ 2)"

definition reference_cosine :: "real list \<Rightarrow> real list \<Rightarrow> real" where
  "reference_cosine a b =
     (if l2_norm a = 0 \<or> l2_norm b = 0 then 0 else dot_product a b / (l2_norm a * l2_norm b))"

text \<open>The collaborative filter of the specification, for the row \<open>u\<close> of the user: "take
  every other user whose row has cosine similarity > 0.1 with the target row, keep the 10
  most similar, and for each product whose target-row cell is 0 and neighbor-row cell is
  > 0 accumulate the sum over those neighbors of neighbor_cell * neighbor_similarity".
  \<open>real_row\<close> reads a row whose cells are all reals; a row with a \<open>NaN\<close> cell has no
  cosine similarity and is similar to no row. \<open>reals x\<close> is the real value of a number,
  if it has one. Among equally similar users the earlier rows are kept.
  \<open>reference_candidates\<close> lists the scored products, in the order of the columns.\<close>

definition real_row :: "number list \<Rightarrow> real list option" where
  "real_row row =
     (if NaN \<in> set row then None else Some (map (\<lambda>x. case x of Num r \<Rightarrow> r | NaN \<Rightarrow> 0) row))"

definition reals :: "number \<Rightarrow> real list" where
  "reals x = (case x of Num r \<Rightarrow> [r] | NaN \<Rightarrow> [])"

definition reference_similar :: "interaction_matrix \<Rightarrow> nat \<Rightarrow> (nat \<times> real) list" where
  "reference_similar m u =
     concat (map (\<lambda>i. case (real_row (matrix m ! u), real_row (matrix m ! i)) of
                         (Some a, Some b) \<Rightarrow>
                           if i \<noteq> u \<and> reference_cosine a b > 0.1
                           then [(i, reference_cosine a b)] else []
                       | _ \<Rightarrow> [])
               [0..<length (userIds m)])"

definition reference_neighbours :: "interaction_matrix \<Rightarrow> nat \<Rightarrow> (nat \<times> real) list" where
  "reference_neighbours m u = take 10 (sort_key (\<lambda>(i, s). - s) (reference_similar m u))"

definition reference_contributions :: "interaction_matrix \<Rightarrow> nat \<Rightarrow> nat \<Rightarrow> real list" where
  "reference_contributions m u j =
     [c * s. (n, s) \<leftarrow> reference_neighbours m u, c \<leftarrow> reals (matrix m ! n ! j),
             matrix m ! u ! j = Num 0, c > 0]"

definition reference_candidates :: "interaction_matrix \<Rightarrow> nat \<Rightarrow> recommendation list" where
  "reference_candidates m u =
     [\<lparr>productId = productIds m ! j, score = sum_list (reference_contributions m u j),
       rtype = ''collaborative''\<rparr>.
        j \<leftarrow> [0..<length (productIds m)], reference_contributions m u j \<noteq> []]"

subsection \<open>Auxiliary definitions of the proofs\<close>

text \<open>The value that line 620 offers to \<^verbatim>\<open>Math.max\<close> for one browsing-history entry
  (the expression \<^verbatim>\<open>recencyScore * 0.7 + durationScore * 0.3\<close> of \<open>fillRow\<close>).\<close>

definition cellScore :: "int \<Rightarrow> interaction \<Rightarrow> number" where
  "cellScore now interaction =
    add (mul (Num (calculateRecencyScore now (timestamp interaction))) (Num 0.7))
        (mul (divide_number
                (Math_min (divide_number (toNumber (duration interaction)) (Num 60)) (Num 10))
                (Num 10)) (Num 0.3))"

text \<open>The boost that \<open>boostCandidate\<close> computes when it returns, and the candidate it
  returns, given the product documents that were found: the test of the category is the
  one of the code, on \<^verbatim>\<open>cat.toString()\<close>.\<close>

definition applied_boost :: "user \<Rightarrow> nat \<Rightarrow> product \<Rightarrow> real" where
  "applied_boost u month p =
     (if (case category p of
            None \<Rightarrow> False
          | Some c \<Rightarrow> c \<in> set (map toString (preferredCategories u)))
      then 1.3 else 1) *
     (if range_min (preferredPriceRange u) \<le> price p \<and> price p \<le> range_max (preferredPriceRange u)
      then 1.2 else 1) *
     (if brand p \<in> set (preferredBrands u) then 1.4 else 1) *
     (if getCurrentSeason month \<in> set (season p) then 1.1 else 1)"

definition applied_boosted :: "user \<Rightarrow> nat \<Rightarrow> product list \<Rightarrow> candidate \<Rightarrow> candidate" where
  "applied_boosted u month products rec =
     (case find (\<lambda>p. product_id p = productId rec) products of
        None \<Rightarrow> rec
      | Some p \<Rightarrow> rec\<lparr>score := score rec * applied_boost u month p,
                       boost := Some (applied_boost u month p)\<rparr>)"

text \<open>The score and the sources that a map of merged candidates holds for a key, and
  the invariant of the map: keys are unique and each entry carries its key as productId.
  \<open>weighted\<close> lists every input entry with the weight of its list.\<close>

definition scoreOf :: "(string \<times> candidate) list \<Rightarrow> string \<Rightarrow> real" where
  "scoreOf combined k = (case map_of combined k of Some c \<Rightarrow> score c | None \<Rightarrow> 0)"

definition sourcesOf :: "(string \<times> candidate) list \<Rightarrow> string \<Rightarrow> string list" where
  "sourcesOf combined k = (case map_of combined k of Some c \<Rightarrow> sources c | None \<Rightarrow> [])"

definition keyed :: "(string \<times> candidate) list \<Rightarrow> bool" where
  "keyed combined \<longleftrightarrow> distinct (map fst combined) \<and> list_all (\<lambda>(k, c). productId c = k) combined"

definition weighted :: "source_list list \<Rightarrow> (recommendation \<times> real) list" where
  "weighted srcs = concat (map (\<lambda>s. map (\<lambda>r. (r, weight s)) (recommendations s)) srcs)"

text \<open>The update of the collaborative filter's map by one offer (a product id and a
  score), the value a map holds for a key, the offers that one neighbour row makes for
  the columns \<open>js\<close>, and all offers of the kept neighbours, in the order of the loops.\<close>

definition upsert :: "string \<times> real \<Rightarrow> (string \<times> real) list \<Rightarrow> (string \<times> real) list" where
  "upsert kv recs =
     (case map_of recs (fst kv) of
        Some old \<Rightarrow> AList.update (fst kv) (old + snd kv) recs
      | None \<Rightarrow> AList.update (fst kv) (snd kv) recs)"

definition valueOf :: "(string \<times> real) list \<Rightarrow> string \<Rightarrow> real" where
  "valueOf recs k = (case map_of recs k of Some v \<Rightarrow> v | None \<Rightarrow> 0)"

definition offers ::
  "interaction_matrix \<Rightarrow> number list \<Rightarrow> number list \<Rightarrow> real \<Rightarrow> nat list \<Rightarrow> (string \<times> real) list" where
  "offers m userVector similarUserVector similarity js =
     [(productIds m ! j, c * similarity).
        j \<leftarrow> js, c \<leftarrow> reals (element similarUserVector j), element userVector j = Num 0, c > 0]"

definition neighbour_offers :: "interaction_matrix \<Rightarrow> nat \<Rightarrow> (string \<times> real) list" where
  "neighbour_offers m u =
     concat (map (\<lambda>(n, s). offers m (matrix m ! u) (matrix m ! n) s [0..<length (matrix m ! n)])
               (reference_neighbours m u))"

subsection \<open>Example data\<close>

definition view_now :: interaction where
  "view_now = \<lparr>viewedProductId = Some ''P1'', timestamp = 1000, duration = Some 120\<rparr>"

definition view_without_duration :: interaction where
  "view_without_duration = \<lparr>viewedProductId = Some ''P1'', timestamp = 1000, duration = None\<rparr>"

definition view_negative_duration :: interaction where
  "view_negative_duration =
     \<lparr>viewedProductId = Some ''P1'', timestamp = 1000, duration = Some (- 6000)\<rparr>"

definition user_U :: "interaction list \<Rightarrow> user" where
  "user_U history = \<lparr>user_id = ''U'', browsingHistory = history, recentlyViewed = [],
     user_preferences = None, personalizationScores = [0, 0, 0, 0, 0, 0], totalPurchases = 0,
     totalSpent = 0, averageOrderValue = 0, timeOfDay = [], dayOfWeek = []\<rparr>"

definition product_P1 :: product where
  "product_P1 = \<lparr>product_id = ''P1'', price = 20, category = Some ''shoes'', brand = ''acme'',
     season = [''summer''], name = ''sandal'', description = ''premium sandal'', views = 100,
     averageRating = 4, colors = [''red''], sizes = [''40'', ''41''], materials = []\<rparr>"

definition mkRec :: "string \<Rightarrow> real \<Rightarrow> string \<Rightarrow> recommendation" where
  "mkRec p s t = \<lparr>productId = p, score = s, rtype = t\<rparr>"

definition product_P2 :: product where
  "product_P2 = \<lparr>product_id = ''P2'', price = 500, category = Some ''hats'', brand = ''other'',
     season = [''winter''], name = ''hat'', description = ''warm hat'', views = 0,
     averageRating = 0, colors = [], sizes = [], materials = [''wool'']\<rparr>"

text \<open>A store with two products, both featured, and one user, who prefers the category
  of the first product, its brand and a price range that holds its price. The user is
  stored with the id of the category; \<open>populated_shopper\<close> is the user after
  \<^verbatim>\<open>populate('preferences.categories')\<close>.\<close>

definition shoes :: category_document where
  "shoes = \<lparr>category_id = ''shoes'', category_fields = ''name: Shoes''\<rparr>"

definition stored_shopper :: user where
  "stored_shopper = \<lparr>user_id = ''U'', browsingHistory = [view_now], recentlyViewed = [],
     user_preferences = Some \<lparr>categories = [ObjectId ''shoes''], brands = [''acme''],
       priceRange = Some \<lparr>range_min = 10, range_max = 50\<rparr>\<rparr>,
     personalizationScores = [0, 0, 0, 0, 0, 0], totalPurchases = 3, totalSpent = 120,
     averageOrderValue = 40, timeOfDay = [5], dayOfWeek = []\<rparr>"

definition populated_shopper :: user where
  "populated_shopper = \<lparr>user_id = ''U'', browsingHistory = [view_now], recentlyViewed = [],
     user_preferences = Some \<lparr>categories = [Populated shoes], brands = [''acme''],
       priceRange = Some \<lparr>range_min = 10, range_max = 50\<rparr>\<rparr>,
     personalizationScores = [0, 0, 0, 0, 0, 0], totalPurchases = 3, totalSpent = 120,
     averageOrderValue = 40, timeOfDay = [5], dayOfWeek = []\<rparr>"

definition shop :: world where
  "shop = \<lparr>findUser = (\<lambda>i. if i = ''U'' then Inr (Some stored_shopper) else Inr None),
     findCategory = (\<lambda>i. if i = ''shoes'' then Some shoes else None),
     findProductsByIds = (\<lambda>ids. Inr (filter (\<lambda>p. product_id p \<in> set ids) [product_P1, product_P2])),
     trendingProducts = Inr [''P2'', ''P1''],
     featuredProducts = Inr [''P2'', ''P1''],
     contentBased = (\<lambda>u n. Inr (take n [mkRec ''P1'' 0.9 ''content-based''])),
     activeUsers = Inr [stored_shopper],
     activeProducts = Inr [product_P1, product_P2],
     currentTime = 1000,
     currentMonth = 6\<rparr>"

text \<open>The same store when the trending query and the reads of \<open>loadUserItemMatrix\<close>
  throw, a store without users and featured products, and two states of the engine: as
  the constructor leaves it, and initialized without a matrix.\<close>

definition failing_shop :: world where
  "failing_shop = shop\<lparr>trendingProducts := Inl (Error ''connection lost''),
     activeUsers := Inl (Error ''connection lost'')\<rparr>"

definition empty_shop :: world where
  "empty_shop = \<lparr>findUser = (\<lambda>i. Inr None),
     findCategory = (\<lambda>i. None),
     findProductsByIds = (\<lambda>ids. Inr []),
     trendingProducts = Inr [],
     featuredProducts = Inr [],
     contentBased = (\<lambda>u n. Inr []),
     activeUsers = Inr [],
     activeProducts = Inr [],
     currentTime = 0,
     currentMonth = 0\<rparr>"

definition new_engine :: engine where
  "new_engine = \<lparr>userItemMatrix = None, isInitialized = False\<rparr>"

definition started_engine :: engine where
  "started_engine = \<lparr>userItemMatrix = None, isInitialized = True\<rparr>"

text \<open>The matrix that \<open>loadUserItemMatrix\<close> builds in the store, and the candidates that
  the merge step makes there: of the content-based and the trending list for the two
  products, and of the content-based list alone.\<close>

definition shop_matrix :: interaction_matrix where
  "shop_matrix = \<lparr>matrix = [[Num 0.76, Num 0]], userIds = [''U''], productIds = [''P1'', ''P2'']\<rparr>"

definition merged_P1 :: candidate where
  "merged_P1 = \<lparr>productId = ''P1'', score = 0.52, sources = [''content-based'', ''trending''],
     boost = None\<rparr>"

definition merged_P2 :: candidate where
  "merged_P2 = \<lparr>productId = ''P2'', score = 0.16, sources = [''trending''], boost = None\<rparr>"

definition content_P1 :: candidate where
  "content_P1 = \<lparr>productId = ''P1'', score = 0.36, sources = [''content-based''], boost = None\<rparr>"

definition small_matrix :: interaction_matrix where
  "small_matrix = \<lparr>matrix = [[Num 1, Num 0], [Num 3, Num 4], [Num 0, Num 0]],
     userIds = [''U0'', ''U1'', ''U2''], productIds = [''P1'', ''P2'']\<rparr>"

section \<open>Properties\<close>

subsection \<open>Numbers\<close>

lemma mul_commute: "mul a b = mul b a"
  by (cases a; cases b) simp_all

subsection \<open>cosineSimilarity\<close>

lemma dot_indexed:
  "k + length a \<le> length b \<Longrightarrow>
   foldl (\<lambda>sum (x, i). add sum (mul x (element b i))) acc (zip a [k..<k + length a]) =
   foldl (\<lambda>sum (x, y). add sum (mul x y)) acc (zip a (drop k b))"
proof (induction a arbitrary: k acc)
  case Nil
  then show ?case by simp
next
  case (Cons x xs)
  from Cons.prems have k: "k < length b" and rest: "Suc k + length xs \<le> length b"
    by simp_all
  have "[k..<k + length (x # xs)] = k # [Suc k..<k + length (x # xs)]"
    by (rule upt_conv_Cons) simp
  then have range: "[k..<k + length (x # xs)] = k # [Suc k..<Suc k + length xs]"
    by simp
  have dropk: "drop k b = b ! k # drop (Suc k) b"
    using k by (simp add: Cons_nth_drop_Suc)
  show ?case
    unfolding range dropk using Cons.IH [OF rest] k by (simp add: element_def)
qed

lemma dot_symmetric:
  "length a = length b \<Longrightarrow>
   foldl (\<lambda>sum (x, y). add sum (mul x y)) acc (zip a b) =
   foldl (\<lambda>sum (x, y). add sum (mul x y)) acc (zip b a)"
  by (induction a b arbitrary: acc rule: list_induct2) (simp_all add: mul_commute)

lemma dotProduct_symmetric:
  assumes "length a = length b"
  shows "foldl (\<lambda>sum (x, i). add sum (mul x (element b i))) (Num 0) (zip a [0..<length a]) =
         foldl (\<lambda>sum (x, i). add sum (mul x (element a i))) (Num 0) (zip b [0..<length b])"
proof -
  have "foldl (\<lambda>sum (x, i). add sum (mul x (element b i))) (Num 0) (zip a [0..<0 + length a]) =
        foldl (\<lambda>sum (x, y). add sum (mul x y)) (Num 0) (zip a (drop 0 b))"
    by (rule dot_indexed) (simp add: assms)
  moreover have "foldl (\<lambda>sum (x, i). add sum (mul x (element a i))) (Num 0) (zip b [0..<0 + length b]) =
        foldl (\<lambda>sum (x, y). add sum (mul x y)) (Num 0) (zip b (drop 0 a))"
    by (rule dot_indexed) (simp add: assms)
  ultimately show ?thesis
    using dot_symmetric [OF assms, of "Num 0"] by simp
qed

lemma squares_zero:
  "\<forall>x\<in>set v. x = Num 0 \<Longrightarrow> foldl (\<lambda>sum a. add sum (mul a a)) (Num 0) v = Num 0"
  by (induction v) simp_all

lemma squares_real:
  "NaN \<notin> set v \<Longrightarrow> 0 \<le> s \<Longrightarrow>
   \<exists>r. 0 \<le> r \<and> foldl (\<lambda>sum a. add sum (mul a a)) (Num s) v = Num r"
proof (induction v arbitrary: s)
  case Nil
  then show ?case by simp
next
  case (Cons x xs)
  then obtain y where x: "x = Num y" by (cases x) auto
  have "0 \<le> s + y * y" using Cons.prems(2) by simp
  with Cons.IH [of "s + y * y"] Cons.prems(1) show ?case by (simp add: x)
qed

lemma dot_real:
  "NaN \<notin> set a \<Longrightarrow> NaN \<notin> set b \<Longrightarrow>
   \<exists>r. foldl (\<lambda>sum (x, y). add sum (mul x y)) (Num s) (zip a b) = Num r"
proof (induction a arbitrary: b s)
  case Nil
  then show ?case by simp
next
  case (Cons x xs)
  show ?case
  proof (cases b)
    case Nil
    then show ?thesis by simp
  next
    case (Cons y ys)
    obtain x' where x: "x = Num x'" using Cons.prems(1) by (cases x) auto
    obtain y' where y: "y = Num y'" using Cons.prems(2) Cons by (cases y) auto
    from Cons.IH [of ys "s + x' * y'"] Cons.prems Cons show ?thesis
      by (simp add: x y)
  qed
qed

text \<open>
  C7. For vectors of equal length, \<open>cosineSimilarity a b = cosineSimilarity b a\<close>. When
  one of the two vectors has zero L2 norm (all its entries are 0) the result is exactly
  0, whatever the other vector holds. On equal-length vectors of real entries the result
  is never \<open>NaN\<close>, and no division by zero is reached.
\<close>

theorem cosineSimilarity_symmetric:
  "(length a = length b \<longrightarrow> cosineSimilarity a b = cosineSimilarity b a) \<and>
   ((\<forall>x\<in>set a. x = Num 0) \<or> (\<forall>x\<in>set b. x = Num 0) \<longrightarrow> cosineSimilarity a b = Num 0) \<and>
   (length a = length b \<and> NaN \<notin> set a \<and> NaN \<notin> set b \<longrightarrow> cosineSimilarity a b \<noteq> NaN)"
proof (intro conjI impI)
  assume len: "length a = length b"
  show "cosineSimilarity a b = cosineSimilarity b a"
    unfolding cosineSimilarity_def Let_def dotProduct_symmetric [OF len]
    by (auto simp: mul_commute)
next
  assume "(\<forall>x\<in>set a. x = Num 0) \<or> (\<forall>x\<in>set b. x = Num 0)"
  then show "cosineSimilarity a b = Num 0"
    by (auto simp: cosineSimilarity_def Let_def squares_zero)
next
  assume h: "length a = length b \<and> NaN \<notin> set a \<and> NaN \<notin> set b"
  then have len: "length a = length b" and na: "NaN \<notin> set a" and nb: "NaN \<notin> set b"
    by simp_all
  obtain ra where ra: "0 \<le> ra" "foldl (\<lambda>sum a. add sum (mul a a)) (Num 0) a = Num ra"
    using squares_real [OF na, of 0] by auto
  obtain rb where rb: "0 \<le> rb" "foldl (\<lambda>sum a. add sum (mul a a)) (Num 0) b = Num rb"
    using squares_real [OF nb, of 0] by auto
  have "foldl (\<lambda>sum (x, i). add sum (mul x (element b i))) (Num 0) (zip a [0..<0 + length a]) =
        foldl (\<lambda>sum (x, y). add sum (mul x y)) (Num 0) (zip a (drop 0 b))"
    by (rule dot_indexed) (simp add: len)
  then obtain d where d: "foldl (\<lambda>sum (x, i). add sum (mul x (element b i))) (Num 0)
      (zip a [0..<length a]) = Num d"
    using dot_real [OF na nb, of 0] by auto
  show "cosineSimilarity a b \<noteq> NaN"
    unfolding cosineSimilarity_def Let_def d ra(2) rb(2) using ra(1) rb(1) by simp
qed

theorem cosineSimilarity_symmetric_witness:
  "cosineSimilarity [Num 3, Num 4] [Num 4, Num 3] = cosineSimilarity [Num 4, Num 3] [Num 3, Num 4] \<and>
   cosineSimilarity [Num 0, Num 0] [Num 4, Num 3] = Num 0 \<and>
   cosineSimilarity [Num 3, Num 4] [Num 4, Num 3] \<noteq> NaN"
proof -
  have "length [Num 3, Num 4] = length [Num 4, Num 3] \<and> NaN \<notin> set [Num 3, Num 4] \<and>
      NaN \<notin> set [Num 4, Num 3]"
    by simp
  with cosineSimilarity_symmetric [of "[Num 3, Num 4]" "[Num 4, Num 3]"]
  have sym: "cosineSimilarity [Num 3, Num 4] [Num 4, Num 3] = cosineSimilarity [Num 4, Num 3] [Num 3, Num 4]"
    and real: "cosineSimilarity [Num 3, Num 4] [Num 4, Num 3] \<noteq> NaN"
    by blast+
  have "\<forall>x\<in>set [Num 0, Num 0]. x = Num 0"
    by simp
  with cosineSimilarity_symmetric [of "[Num 0, Num 0]" "[Num 4, Num 3]"]
  have zero: "cosineSimilarity [Num 0, Num 0] [Num 4, Num 3] = Num 0"
    by blast
  from sym zero real show ?thesis by blast
qed

subsection \<open>loadUserItemMatrix\<close>

lemma indexOf_Some: "indexOf xs x = Some j \<Longrightarrow> j < length xs \<and> xs ! j = x"
  by (induction xs arbitrary: j) (auto split: if_splits)

lemma indexOf_None: "indexOf xs x = None \<longleftrightarrow> x \<notin> set xs"
  by (induction xs) auto

lemma cellScore_Some:
  "duration e = Some d \<Longrightarrow> cellScore now e = Num (score_formula now (timestamp e) d)"
  by (simp add: cellScore_def score_formula_def calculateRecencyScore_def)

lemma fillRow_cell:
  "fillRow now pids es row = Inr row' \<Longrightarrow> length row = length pids \<Longrightarrow> distinct pids \<Longrightarrow>
   j < length pids \<Longrightarrow>
   length row' = length row \<and>
   row' ! j = fold (\<lambda>e acc. Math_max acc (cellScore now e))
                [e \<leftarrow> es. viewedProductId e = Some (pids ! j)] (row ! j)"
proof (induction es arbitrary: row)
  case Nil
  then show ?case by simp
next
  case (Cons e es)
  from Cons.prems(1) obtain p where p: "viewedProductId e = Some p"
    by (cases "viewedProductId e") auto
  show ?case
  proof (cases "indexOf pids p")
    case None
    then have "p \<noteq> pids ! j" using Cons.prems(4) by (auto simp: indexOf_None)
    moreover from Cons.prems(1) p None have "fillRow now pids es row = Inr row'" by simp
    ultimately show ?thesis using Cons.IH [of row] Cons.prems p by simp
  next
    case (Some k)
    then have k: "k < length pids" "pids ! k = p" using indexOf_Some by fastforce+
    let ?row = "row[k := Math_max (row ! k) (cellScore now e)]"
    from Cons.prems(1) p Some have run: "fillRow now pids es ?row = Inr row'"
      by (simp add: cellScore_def Let_def)
    have len: "length ?row = length pids" using Cons.prems(2) by simp
    note ih = Cons.IH [OF run len Cons.prems(3) Cons.prems(4)]
    show ?thesis
    proof (cases "k = j")
      case True
      then show ?thesis using ih k p Cons.prems(2,4) by simp
    next
      case False
      then have "p \<noteq> pids ! j"
        using k Cons.prems(3,4) by (auto simp: nth_eq_iff_index_eq)
      then show ?thesis using ih p False by simp
    qed
  qed
qed

lemma fold_Math_max_Num:
  "fold (\<lambda>x acc. Math_max acc (Num x)) xs (Num a) = Num (Max (insert a (set xs)))"
proof (induction xs arbitrary: a)
  case Nil
  then show ?case by simp
next
  case (Cons x xs)
  have "Max (insert (max a x) (set xs)) = Max (insert a (insert x (set xs)))"
  proof (cases "set xs = {}")
    case True
    then show ?thesis by (simp add: max.commute)
  next
    case False
    then show ?thesis by (simp add: max.assoc)
  qed
  then show ?case using Cons.IH [of "max a x"] by simp
qed

lemma fillMatrix_row:
  "fillMatrix now pids us = Inr rows \<Longrightarrow> i < length us \<Longrightarrow>
   length rows = length us \<and>
   fillRow now pids (browsingHistory (us ! i)) (replicate (length pids) (Num 0)) = Inr (rows ! i)"
proof (induction us arbitrary: rows i)
  case Nil
  then show ?case by simp
next
  case (Cons u us)
  from Cons.prems(1) obtain row rest where
    row: "fillRow now pids (browsingHistory u) (replicate (length pids) (Num 0)) = Inr row"
    and rest: "fillMatrix now pids us = Inr rest" and rows: "rows = row # rest"
    by (auto split: sum.splits)
  show ?case
  proof (cases i)
    case 0
    then show ?thesis using row rows rest Cons.IH [OF rest] Cons.prems(2)
      by (cases us) (auto split: sum.splits)
  next
    case (Suc k)
    then show ?thesis using Cons.IH [OF rest, of k] Cons.prems(2) rows by simp
  qed
qed

lemma fold_cellScore_Some:
  "\<forall>e\<in>set es. duration e \<noteq> None \<Longrightarrow>
   fold (\<lambda>e acc. Math_max acc (cellScore now e)) es (Num a) =
   Num (Max (insert a ((\<lambda>e. score_formula now (timestamp e) (the (duration e))) ` set es)))"
proof -
  assume h: "\<forall>e\<in>set es. duration e \<noteq> None"
  have "fold (\<lambda>e acc. Math_max acc (cellScore now e)) es (Num a) =
        fold (\<lambda>x acc. Math_max acc (Num x))
          (map (\<lambda>e. score_formula now (timestamp e) (the (duration e))) es) (Num a)"
    using h
  proof (induction es arbitrary: a)
    case Nil
    then show ?case by simp
  next
    case (Cons e es)
    then obtain d where d: "duration e = Some d" by auto
    with Cons show ?case by (simp add: cellScore_Some)
  qed
  then show ?thesis by (simp add: fold_Math_max_Num)
qed

lemma score_formula_pos: "0 \<le> d \<Longrightarrow> 0 < score_formula now ts d"
proof -
  assume "0 \<le> d"
  then have "0 \<le> (min (d / 60) 10 / 10) * 0.3" by simp
  moreover have "0 < exp (- (real_of_int (now - ts) / 86400000) / 30) * 0.7" by simp
  ultimately show ?thesis unfolding score_formula_def by linarith
qed

lemma score_formula_le_1: "ts \<le> now \<Longrightarrow> score_formula now ts d \<le> 1"
proof -
  assume "ts \<le> now"
  then have "exp (- (real_of_int (now - ts) / 86400000) / 30) \<le> 1" by simp
  moreover have "min (d / 60) 10 / 10 \<le> 1" by simp
  ultimately show ?thesis unfolding score_formula_def by linarith
qed

lemma score_formula_now: "score_formula now now 120 = 0.76"
  by (simp add: score_formula_def)

lemma matrix_cell_max:
  assumes built: "loadUserItemMatrix now users products = Inr M"
    and ids: "distinct (map product_id products)"
    and i: "i < length users" and j: "j < length products"
    and E: "E = [e \<leftarrow> browsingHistory (users ! i).
                  viewedProductId e = Some (product_id (products ! j))]"
    and durations: "\<forall>e\<in>set E. duration e \<noteq> None"
    and S: "S = (\<lambda>e. score_formula now (timestamp e) (the (duration e))) ` set E"
  shows "matrix M ! i ! j = Num (Max (insert 0 S))"
proof -
  let ?pids = "map product_id products"
  from built obtain rows where rows: "fillMatrix now ?pids users = Inr rows"
    and M: "matrix M = rows"
    by (auto simp: loadUserItemMatrix_def Let_def split: sum.splits)
  from fillMatrix_row [OF rows i]
  have row: "fillRow now ?pids (browsingHistory (users ! i)) (replicate (length ?pids) (Num 0)) =
      Inr (rows ! i)"
    by simp
  have j': "j < length ?pids" using j by simp
  from fillRow_cell [OF row _ ids j'] j
  have "rows ! i ! j = fold (\<lambda>e acc. Math_max acc (cellScore now e)) E (Num 0)"
    by (simp add: E)
  then show ?thesis
    using fold_cellScore_Some [OF durations, of now 0] by (simp add: M S)
qed

text \<open>
  C1. Let \<open>E\<close> be the browsing-history events of user \<open>i\<close> for product \<open>j\<close>, all with a
  duration, and \<open>S\<close> the values of the specification's formula
  \<open>exp(-days/30)*0.7 + (min(d/60,10)/10)*0.3\<close> on them. When events are stored for the
  pair and their durations, being times spent viewing, are not negative, the cell of the
  matrix built by \<open>loadUserItemMatrix\<close> is the maximum of \<open>S\<close>. A single event whose
  timestamp is the build time and whose duration is 120 seconds gives exactly 0.76.
  The specification's \<^verbatim>\<open>cell = max(existing_cell, ...)\<close> starts from the cell's initial 0:
  in general the cell is the maximum of 0 and \<open>S\<close>, so it is 0 when no event is stored
  for the pair.
\<close>

theorem loadUserItemMatrix_cell:
  assumes built: "loadUserItemMatrix now users products = Inr M"
    and ids: "distinct (map product_id products)"
    and i: "i < length users" and j: "j < length products"
    and E: "E = [e \<leftarrow> browsingHistory (users ! i).
                  viewedProductId e = Some (product_id (products ! j))]"
    and durations: "\<forall>e\<in>set E. duration e \<noteq> None"
    and S: "S = (\<lambda>e. score_formula now (timestamp e) (the (duration e))) ` set E"
  shows "matrix M ! i ! j = Num (Max (insert 0 S)) \<and>
         (E = [] \<longrightarrow> matrix M ! i ! j = Num 0) \<and>
         (E \<noteq> [] \<and> (\<forall>e\<in>set E. 0 \<le> the (duration e)) \<longrightarrow> matrix M ! i ! j = Num (Max S)) \<and>
         ((\<exists>e. E = [e] \<and> timestamp e = now \<and> duration e = Some 120) \<longrightarrow>
            matrix M ! i ! j = Num 0.76)"
proof -
  have cell: "matrix M ! i ! j = Num (Max (insert 0 S))"
    by (rule matrix_cell_max [OF built ids i j E durations S])
  have empty: "E = [] \<longrightarrow> matrix M ! i ! j = Num 0"
    using cell by (simp add: S)
  have nonneg: "E \<noteq> [] \<and> (\<forall>e\<in>set E. 0 \<le> the (duration e)) \<longrightarrow> matrix M ! i ! j = Num (Max S)"
  proof
    assume h: "E \<noteq> [] \<and> (\<forall>e\<in>set E. 0 \<le> the (duration e))"
    then have fin: "finite S" and ne: "S \<noteq> {}" by (simp_all add: S)
    from h have "\<forall>s\<in>S. 0 < s" by (auto simp: S score_formula_pos)
    then have "0 < Max S" using fin ne by (auto simp: Max_gr_iff)
    then have "Max (insert 0 S) = Max S" using fin ne by simp
    with cell show "matrix M ! i ! j = Num (Max S)" by simp
  qed
  have single: "(\<exists>e. E = [e] \<and> timestamp e = now \<and> duration e = Some 120) \<longrightarrow>
      matrix M ! i ! j = Num 0.76"
  proof
    assume "\<exists>e. E = [e] \<and> timestamp e = now \<and> duration e = Some 120"
    then obtain e where "E = [e]" "timestamp e = now" "duration e = Some 120" by blast
    then have "S = {0.76}" by (simp add: S score_formula_now)
    with cell show "matrix M ! i ! j = Num 0.76" by simp
  qed
  from cell empty nonneg single show ?thesis by blast
qed

theorem loadUserItemMatrix_cell_witness:
  "loadUserItemMatrix 1000 [user_U [view_now]] [product_P1] =
     Inr \<lparr>matrix = [[Num 0.76]], userIds = [''U''], productIds = [''P1'']\<rparr> \<and>
   matrix \<lparr>matrix = [[Num 0.76]], userIds = [''U''], productIds = [''P1'']\<rparr> ! 0 ! 0 = Num 0.76"
proof -
  let ?M = "\<lparr>matrix = [[Num 0.76]], userIds = [''U''], productIds = [''P1'']\<rparr>"
  have built: "loadUserItemMatrix 1000 [user_U [view_now]] [product_P1] = Inr ?M"
    by (simp add: loadUserItemMatrix_def user_U_def view_now_def product_P1_def
        calculateRecencyScore_def)
  have E: "[e \<leftarrow> browsingHistory ([user_U [view_now]] ! 0).
             viewedProductId e = Some (product_id ([product_P1] ! 0))] = [view_now]"
    by (simp add: user_U_def view_now_def product_P1_def)
  have single: "\<exists>e. [view_now] = [e] \<and> timestamp e = 1000 \<and> duration e = Some 120"
    by (simp add: view_now_def)
  have "(\<exists>e. [view_now] = [e] \<and> timestamp e = 1000 \<and> duration e = Some 120) \<longrightarrow>
      matrix ?M ! 0 ! 0 = Num 0.76"
    using loadUserItemMatrix_cell [OF built _ _ _ E [symmetric] _ refl]
    by (simp add: view_now_def)
  with single built show ?thesis by blast
qed

text \<open>
  The assumption on the durations is needed: a stored duration of -6000 seconds, which
  is no viewing time, has a negative formula value and leaves the cell at its initial 0.
\<close>

lemma negative_duration_cell:
  "loadUserItemMatrix 1000 [user_U [view_negative_duration]] [product_P1] =
     Inr \<lparr>matrix = [[Num 0]], userIds = [''U''], productIds = [''P1'']\<rparr> \<and>
   Max {score_formula 1000 (timestamp view_negative_duration)
          (the (duration view_negative_duration))} = - 23 / 10 \<and>
   matrix \<lparr>matrix = [[Num 0]], userIds = [''U''], productIds = [''P1'']\<rparr> ! 0 ! 0 \<noteq>
     Num (Max {score_formula 1000 (timestamp view_negative_duration)
                 (the (duration view_negative_duration))})"
  by (simp add: loadUserItemMatrix_def user_U_def view_negative_duration_def product_P1_def
      calculateRecencyScore_def score_formula_def)

lemma fillRow_total:
  "\<forall>e\<in>set es. viewedProductId e \<noteq> None \<Longrightarrow> \<exists>row'. fillRow now pids es row = Inr row'"
proof (induction es arbitrary: row)
  case Nil
  then show ?case by simp
next
  case (Cons e es)
  then obtain p where p: "viewedProductId e = Some p" by auto
  from Cons.prems have rest: "\<forall>e\<in>set es. viewedProductId e \<noteq> None" by simp
  show ?case
  proof (cases "indexOf pids p")
    case None
    then show ?thesis using Cons.IH [OF rest, of row] p by simp
  next
    case (Some k)
    then show ?thesis using Cons.IH [OF rest] p by (simp add: Let_def)
  qed
qed

lemma fillMatrix_total:
  "\<forall>u\<in>set us. \<forall>e\<in>set (browsingHistory u). viewedProductId e \<noteq> None \<Longrightarrow>
   \<exists>rows. fillMatrix now pids us = Inr rows"
proof (induction us)
  case Nil
  then show ?case by simp
next
  case (Cons u us)
  then obtain rows where rows: "fillMatrix now pids us = Inr rows" by auto
  from Cons.prems have "\<forall>e\<in>set (browsingHistory u). viewedProductId e \<noteq> None" by simp
  from fillRow_total [OF this] obtain row where
    "fillRow now pids (browsingHistory u) (replicate (length pids) (Num 0)) = Inr row"
    by blast
  with rows show ?case by simp
qed

lemma loadUserItemMatrix_total:
  "\<forall>u\<in>set users. \<forall>e\<in>set (browsingHistory u). viewedProductId e \<noteq> None \<Longrightarrow>
   \<exists>M. loadUserItemMatrix now users products = Inr M"
  using fillMatrix_total [of users now "map product_id products"]
  by (auto simp: loadUserItemMatrix_def Let_def)

lemma matrix_cell_bounds:
  assumes built: "loadUserItemMatrix now users products = Inr M"
    and ids: "distinct (map product_id products)"
    and i: "i < length users" and j: "j < length products"
    and durations: "\<forall>e\<in>set (browsingHistory (users ! i)). duration e \<noteq> None \<and> timestamp e \<le> now"
  shows "\<exists>x. matrix M ! i ! j = Num x \<and> 0 \<le> x \<and> x \<le> 1"
proof -
  define E where "E = [e \<leftarrow> browsingHistory (users ! i).
                  viewedProductId e = Some (product_id (products ! j))]"
  define S where "S = (\<lambda>e. score_formula now (timestamp e) (the (duration e))) ` set E"
  have d: "\<forall>e\<in>set E. duration e \<noteq> None" using durations by (simp add: E_def)
  have cell: "matrix M ! i ! j = Num (Max (insert 0 S))"
    by (rule matrix_cell_max [OF built ids i j E_def d S_def])
  have fin: "finite (insert 0 S)" by (simp add: S_def)
  have "\<forall>s\<in>insert 0 S. s \<le> 1" using durations by (auto simp: S_def E_def score_formula_le_1)
  then have "Max (insert 0 S) \<le> 1" using fin by (subst Max_le_iff) auto
  moreover have "0 \<le> Max (insert 0 S)" using fin by (subst Max_ge_iff) auto
  ultimately show ?thesis using cell by blast
qed

text \<open>
  C9. With every duration present and every timestamp at or before the build time, each
  cell is a real in [0,1] (\<open>matrix_cell_bounds\<close>). A stored event without a
  duration breaks it: \<^verbatim>\<open>undefined / 60\<close> is \<open>NaN\<close>, which \<^verbatim>\<open>Math.min\<close>, the arithmetic
  and \<^verbatim>\<open>Math.max\<close> all propagate, so the cell is \<open>NaN\<close>.
\<close>

theorem loadUserItemMatrix_missing_duration:
  "loadUserItemMatrix 1000 [user_U [view_without_duration]] [product_P1] =
     Inr \<lparr>matrix = [[NaN]], userIds = [''U''], productIds = [''P1'']\<rparr>"
  by (simp add: loadUserItemMatrix_def user_U_def view_without_duration_def product_P1_def
      calculateRecencyScore_def)

subsection \<open>combineRecommendations\<close>

lemma update_keys_append:
  "map fst (AList.update k v al) = (if k \<in> set (map fst al) then map fst al else map fst al @ [k])"
  by (induction al) auto

lemma accumulate_keys:
  "map fst (accumulate w r combined) =
     (if productId r \<in> set (map fst combined) then map fst combined
      else map fst combined @ [productId r])"
  by (auto simp: accumulate_def Let_def update_keys_append split: option.splits)

lemma set_update_subset:
  "(k', c) \<in> set (AList.update k v al) \<Longrightarrow> (k', c) = (k, v) \<or> (k', c) \<in> set al"
  by (induction al) (auto split: if_splits)

lemma accumulate_keyed: "keyed combined \<Longrightarrow> keyed (accumulate w r combined)"
proof -
  assume k: "keyed combined"
  then have d: "distinct (map fst (accumulate w r combined))"
    by (auto simp: keyed_def accumulate_keys)
  have "\<And>k' c. (k', c) \<in> set (accumulate w r combined) \<Longrightarrow> productId c = k'"
  proof -
    fix k' c assume in': "(k', c) \<in> set (accumulate w r combined)"
    show "productId c = k'"
    proof (cases "map_of combined (productId r)")
      case None
      with in' set_update_subset show ?thesis
        using k by (fastforce simp: accumulate_def Let_def keyed_def list_all_iff)
    next
      case (Some e)
      then have "(productId r, e) \<in> set combined" by (rule map_of_SomeD)
      then have "productId e = productId r" using k by (auto simp: keyed_def list_all_iff)
      with in' Some set_update_subset show ?thesis
        using k by (fastforce simp: accumulate_def Let_def keyed_def list_all_iff)
    qed
  qed
  with d show ?thesis by (auto simp: keyed_def list_all_iff)
qed

lemma accumulate_scoreOf:
  "scoreOf (accumulate w r combined) k =
     scoreOf combined k + (if productId r = k then score r * w else 0)"
  by (auto simp: scoreOf_def accumulate_def Let_def update_conv' split: option.splits)

lemma accumulate_sourcesOf:
  "sourcesOf (accumulate w r combined) k =
     sourcesOf combined k @ (if productId r = k then [rtype r] else [])"
  by (auto simp: sourcesOf_def accumulate_def Let_def update_conv' split: option.splits)

lemma mergeSources_weighted:
  "fold (\<lambda>src combined. fold (accumulate (weight src)) (recommendations src) combined) srcs acc =
   fold (\<lambda>(r, w). accumulate w r) (weighted srcs) acc"
proof (induction srcs arbitrary: acc)
  case Nil
  then show ?case by (simp add: weighted_def)
next
  case (Cons s srcs)
  have "fold (\<lambda>(r, w). accumulate w r) (map (\<lambda>r. (r, weight s)) (recommendations s)) acc =
        fold (accumulate (weight s)) (recommendations s) acc"
    by (simp add: fold_map comp_def)
  then show ?case using Cons.IH by (simp add: weighted_def)
qed

lemma fold_accumulate_keyed:
  "keyed acc \<Longrightarrow> keyed (fold (\<lambda>(r, w). accumulate w r) cs acc)"
  by (induction cs arbitrary: acc) (auto simp: accumulate_keyed)

lemma fold_accumulate_keys:
  "map fst (fold (\<lambda>(r, w). accumulate w r) cs acc) =
   firstSeen (map fst acc) (map (\<lambda>(r, w). productId r) cs)"
proof (induction cs arbitrary: acc)
  case Nil
  then show ?case by (simp add: firstSeen_def)
next
  case (Cons c cs)
  obtain r w where c: "c = (r, w)" by (cases c)
  show ?case using Cons.IH [of "accumulate w r acc"]
    by (simp add: c firstSeen_def accumulate_keys)
qed

lemma fold_accumulate_scoreOf:
  "scoreOf (fold (\<lambda>(r, w). accumulate w r) cs acc) k =
   scoreOf acc k + (\<Sum>(r, w)\<leftarrow>filter (\<lambda>(r, w). productId r = k) cs. score r * w)"
proof (induction cs arbitrary: acc)
  case Nil
  then show ?case by simp
next
  case (Cons c cs)
  obtain r w where c: "c = (r, w)" by (cases c)
  show ?case using Cons.IH [of "accumulate w r acc"]
    by (simp add: c accumulate_scoreOf)
qed

lemma fold_accumulate_sourcesOf:
  "sourcesOf (fold (\<lambda>(r, w). accumulate w r) cs acc) k =
   sourcesOf acc k @ map (\<lambda>(r, w). rtype r) (filter (\<lambda>(r, w). productId r = k) cs)"
proof (induction cs arbitrary: acc)
  case Nil
  then show ?case by simp
next
  case (Cons c cs)
  obtain r w where c: "c = (r, w)" by (cases c)
  show ?case using Cons.IH [of "accumulate w r acc"]
    by (simp add: c accumulate_sourcesOf)
qed

lemma weighted_sum:
  "(\<Sum>(r, w)\<leftarrow>filter (\<lambda>(r, w). productId r = k) (weighted srcs). score r * w) =
   (\<Sum>s\<leftarrow>srcs. \<Sum>r\<leftarrow>filter (\<lambda>r. productId r = k) (recommendations s). score r * weight s)"
proof (induction srcs)
  case Nil
  then show ?case by (simp add: weighted_def)
next
  case (Cons s srcs)
  have "filter (\<lambda>(r, w). productId r = k) (map (\<lambda>r. (r, weight s)) (recommendations s)) =
        map (\<lambda>r. (r, weight s)) (filter (\<lambda>r. productId r = k) (recommendations s))"
    by (simp add: filter_map comp_def)
  then show ?case using Cons.IH by (simp add: weighted_def comp_def)
qed

lemma weighted_types:
  "map (\<lambda>(r, w). rtype r) (filter (\<lambda>(r, w). productId r = k) (weighted srcs)) =
   concat (map (\<lambda>s. map rtype (filter (\<lambda>r. productId r = k) (recommendations s))) srcs)"
proof (induction srcs)
  case Nil
  then show ?case by (simp add: weighted_def)
next
  case (Cons s srcs)
  have "filter (\<lambda>(r, w). productId r = k) (map (\<lambda>r. (r, weight s)) (recommendations s)) =
        map (\<lambda>r. (r, weight s)) (filter (\<lambda>r. productId r = k) (recommendations s))"
    by (simp add: filter_map comp_def)
  then show ?case using Cons.IH by (simp add: weighted_def comp_def)
qed

lemma weighted_ids:
  "map (\<lambda>(r, w). productId r) (weighted srcs) = concat (map (\<lambda>s. map productId (recommendations s)) srcs)"
  by (induction srcs) (simp_all add: weighted_def comp_def)

lemma mergeSources_fold: "mergeSources srcs = fold (\<lambda>(r, w). accumulate w r) (weighted srcs) []"
  by (simp add: mergeSources_def mergeSources_weighted)

lemma mergeSources_keyed: "keyed (mergeSources srcs)"
  unfolding mergeSources_fold by (rule fold_accumulate_keyed) (simp add: keyed_def)

lemma keyed_lookup: "keyed combined \<Longrightarrow> c \<in> snd ` set combined \<Longrightarrow> map_of combined (productId c) = Some c"
  by (auto simp: keyed_def list_all_iff)

lemma keyed_ids: "keyed combined \<Longrightarrow> map productId (map snd combined) = map fst combined"
  by (auto simp: keyed_def list_all_iff)

lemma set_firstSeen: "set (firstSeen seen xs) = set seen \<union> set xs"
  unfolding firstSeen_def by (induction xs arbitrary: seen) auto

lemma distinct_firstSeen: "distinct seen \<Longrightarrow> distinct (firstSeen seen xs)"
  unfolding firstSeen_def by (induction xs arbitrary: seen) auto

lemma mergeSources_ids:
  "map productId (map snd (mergeSources srcs)) =
   firstSeen [] (concat (map (\<lambda>s. map productId (recommendations s)) srcs))"
proof -
  have "map productId (map snd (mergeSources srcs)) = map fst (mergeSources srcs)"
    by (rule keyed_ids [OF mergeSources_keyed])
  also have "\<dots> = firstSeen [] (concat (map (\<lambda>s. map productId (recommendations s)) srcs))"
    unfolding mergeSources_fold fold_accumulate_keys weighted_ids by simp
  finally show ?thesis .
qed

lemma mergeSources_score:
  assumes "c \<in> snd ` set (mergeSources srcs)"
  shows "score c = (\<Sum>s\<leftarrow>srcs. \<Sum>r\<leftarrow>filter (\<lambda>r. productId r = productId c) (recommendations s).
                      score r * weight s)"
proof -
  have "map_of (mergeSources srcs) (productId c) = Some c"
    using keyed_lookup [OF mergeSources_keyed assms] .
  then have "score c = scoreOf (mergeSources srcs) (productId c)" by (simp add: scoreOf_def)
  also have "\<dots> = (\<Sum>(r, w)\<leftarrow>filter (\<lambda>(r, w). productId r = productId c) (weighted srcs). score r * w)"
    unfolding mergeSources_fold fold_accumulate_scoreOf by (simp add: scoreOf_def)
  finally show ?thesis by (simp only: weighted_sum)
qed

lemma mergeSources_sources:
  assumes "c \<in> snd ` set (mergeSources srcs)"
  shows "sources c =
    concat (map (\<lambda>s. map rtype (filter (\<lambda>r. productId r = productId c) (recommendations s))) srcs)"
proof -
  have "map_of (mergeSources srcs) (productId c) = Some c"
    using keyed_lookup [OF mergeSources_keyed assms] .
  then have "sources c = sourcesOf (mergeSources srcs) (productId c)" by (simp add: sourcesOf_def)
  also have "\<dots> = map (\<lambda>(r, w). rtype r)
      (filter (\<lambda>(r, w). productId r = productId c) (weighted srcs))"
    unfolding mergeSources_fold fold_accumulate_sourcesOf by (simp add: sourcesOf_def)
  finally show ?thesis by (simp only: weighted_types)
qed

lemma distinct_map_sortByScore:
  "distinct (map f (sortByScore xs)) = distinct (map f xs)"
  by (simp add: sortByScore_def distinct_map)

lemma set_sortByScore: "set (sortByScore xs) = set xs"
  by (simp add: sortByScore_def)

lemma set_combineRecommendations:
  "set (combineRecommendations srcs) = snd ` set (mergeSources srcs)"
  by (simp add: combineRecommendations_def sortByScore_def)

lemma combineRecommendations_ids_distinct:
  "distinct (map productId (combineRecommendations srcs))"
proof -
  have "distinct (map productId (map snd (mergeSources srcs)))"
    unfolding mergeSources_ids by (rule distinct_firstSeen) simp
  then show ?thesis
    by (simp only: combineRecommendations_def distinct_map_sortByScore)
qed

lemma combineRecommendations_ids_set:
  "set (map productId (combineRecommendations srcs)) =
   (\<Union>s\<in>set srcs. productId ` set (recommendations s))"
proof -
  have "set (map productId (combineRecommendations srcs)) = set (map productId (map snd (mergeSources srcs)))"
    by (simp only: combineRecommendations_def set_map set_sortByScore)
  also have "\<dots> = (\<Union>s\<in>set srcs. productId ` set (recommendations s))"
    unfolding mergeSources_ids by (simp add: set_firstSeen)
  finally show ?thesis .
qed

text \<open>The merging scenario of the specification:
  \<^verbatim>\<open>[([{P1:0.5}], 0.4), ([{P1:0.8}], 0.4), ([{P2:0.8}], 0.2)]\<close> yields
  \<^verbatim>\<open>[P1: 0.52, P2: 0.16]\<close>.\<close>

lemma combineRecommendations_scenario:
  "combineRecommendations
     [\<lparr>recommendations = [mkRec ''P1'' 0.5 ''collaborative''], weight = 0.4\<rparr>,
      \<lparr>recommendations = [mkRec ''P1'' 0.8 ''content-based''], weight = 0.4\<rparr>,
      \<lparr>recommendations = [mkRec ''P2'' 0.8 ''trending''], weight = 0.2\<rparr>] =
   [\<lparr>productId = ''P1'', score = 0.52, sources = [''collaborative'', ''content-based''], boost = None\<rparr>,
    \<lparr>productId = ''P2'', score = 0.16, sources = [''trending''], boost = None\<rparr>]"
  by (simp add: combineRecommendations_def mergeSources_def accumulate_def sortByScore_def
      mkRec_def)

text \<open>
  C3. \<open>combineRecommendations\<close> returns one candidate per productId of the input lists.
  Its score is the sum, over all lists and all entries of the list with that productId,
  of the entry's score times the list's weight; its sources are the \<^verbatim>\<open>type\<close> tags of
  those entries, in the order of the lists, so their set is the union of the tags. With
  the weights 0.4, 0.4 and 0.2 of \<open>getRecommendations\<close>, a product that is once in the
  collaborative list (score \<open>c\<close>), once in the content list (score \<open>d\<close>) and not in the
  trending list gets exactly \<open>0.4 * c + 0.4 * d\<close>.
\<close>

theorem combineRecommendations_sums:
  "distinct (map productId (combineRecommendations srcs)) \<and>
   set (map productId (combineRecommendations srcs)) =
     (\<Union>s\<in>set srcs. productId ` set (recommendations s)) \<and>
   (\<forall>c\<in>set (combineRecommendations srcs).
      score c = (\<Sum>s\<leftarrow>srcs. \<Sum>r\<leftarrow>filter (\<lambda>r. productId r = productId c) (recommendations s).
                    score r * weight s) \<and>
      sources c = concat (map (\<lambda>s. map rtype (filter (\<lambda>r. productId r = productId c)
                                                  (recommendations s))) srcs) \<and>
      set (sources c) =
        (\<Union>s\<in>set srcs. rtype ` {r \<in> set (recommendations s). productId r = productId c})) \<and>
   (filter (\<lambda>r. productId r = p) collaborativeRecs = [rc] \<and>
    filter (\<lambda>r. productId r = p) contentBasedRecs = [rd] \<and>
    filter (\<lambda>r. productId r = p) trendingRecs = [] \<longrightarrow>
      (\<exists>c\<in>set (combineRecommendations
                  [\<lparr>recommendations = collaborativeRecs, weight = 0.4\<rparr>,
                   \<lparr>recommendations = contentBasedRecs, weight = 0.4\<rparr>,
                   \<lparr>recommendations = trendingRecs, weight = 0.2\<rparr>]).
          productId c = p \<and> score c = 0.4 * score rc + 0.4 * score rd \<and>
          sources c = [rtype rc, rtype rd]))"
proof (intro conjI ballI impI)
  show "distinct (map productId (combineRecommendations srcs))"
    by (rule combineRecommendations_ids_distinct)
  show "set (map productId (combineRecommendations srcs)) =
     (\<Union>s\<in>set srcs. productId ` set (recommendations s))"
    by (rule combineRecommendations_ids_set)
next
  fix c assume "c \<in> set (combineRecommendations srcs)"
  then have c: "c \<in> snd ` set (mergeSources srcs)" by (simp only: set_combineRecommendations)
  show "score c = (\<Sum>s\<leftarrow>srcs. \<Sum>r\<leftarrow>filter (\<lambda>r. productId r = productId c) (recommendations s).
                    score r * weight s)"
    by (rule mergeSources_score [OF c])
  show src: "sources c = concat (map (\<lambda>s. map rtype (filter (\<lambda>r. productId r = productId c)
                                                  (recommendations s))) srcs)"
    by (rule mergeSources_sources [OF c])
  show "set (sources c) =
        (\<Union>s\<in>set srcs. rtype ` {r \<in> set (recommendations s). productId r = productId c})"
    unfolding src by auto
next
  let ?srcs = "[\<lparr>recommendations = collaborativeRecs, weight = 0.4\<rparr>,
                   \<lparr>recommendations = contentBasedRecs, weight = 0.4\<rparr>,
                   \<lparr>recommendations = trendingRecs, weight = 0.2\<rparr>]"
  assume h: "filter (\<lambda>r. productId r = p) collaborativeRecs = [rc] \<and>
    filter (\<lambda>r. productId r = p) contentBasedRecs = [rd] \<and>
    filter (\<lambda>r. productId r = p) trendingRecs = []"
  then have "rc \<in> set (filter (\<lambda>r. productId r = p) collaborativeRecs)" by simp
  then have "rc \<in> set collaborativeRecs" "productId rc = p" by simp_all
  then have "p \<in> (\<Union>s\<in>set ?srcs. productId ` set (recommendations s))" by auto
  then have "p \<in> set (map productId (combineRecommendations ?srcs))"
    by (simp only: combineRecommendations_ids_set)
  then obtain c where c: "c \<in> set (combineRecommendations ?srcs)" and p: "productId c = p"
    by auto
  from c have c': "c \<in> snd ` set (mergeSources ?srcs)" by (simp only: set_combineRecommendations)
  have "score c = 0.4 * score rc + 0.4 * score rd"
    using mergeSources_score [OF c'] h by (simp add: p)
  moreover have "sources c = [rtype rc, rtype rd]"
    using mergeSources_sources [OF c'] h by (simp add: p)
  ultimately show "\<exists>c\<in>set (combineRecommendations ?srcs).
          productId c = p \<and> score c = 0.4 * score rc + 0.4 * score rd \<and>
          sources c = [rtype rc, rtype rd]"
    using c p by blast
qed

theorem combineRecommendations_sums_witness:
  "\<exists>c\<in>set (combineRecommendations
              [\<lparr>recommendations = [mkRec ''P1'' 0.5 ''collaborative''], weight = 0.4\<rparr>,
               \<lparr>recommendations = [mkRec ''P1'' 0.8 ''content-based''], weight = 0.4\<rparr>,
               \<lparr>recommendations = [mkRec ''P2'' 0.8 ''trending''], weight = 0.2\<rparr>]).
      productId c = ''P1'' \<and> score c = 0.52 \<and> sources c = [''collaborative'', ''content-based'']"
proof -
  have "filter (\<lambda>r. productId r = ''P1'') [mkRec ''P1'' 0.5 ''collaborative''] =
          [mkRec ''P1'' 0.5 ''collaborative''] \<and>
        filter (\<lambda>r. productId r = ''P1'') [mkRec ''P1'' 0.8 ''content-based''] =
          [mkRec ''P1'' 0.8 ''content-based''] \<and>
        filter (\<lambda>r. productId r = ''P1'') [mkRec ''P2'' 0.8 ''trending''] = []"
    by (simp add: mkRec_def)
  with combineRecommendations_sums [of "[]" "''P1''" "[mkRec ''P1'' 0.5 ''collaborative'']"
      "mkRec ''P1'' 0.5 ''collaborative''" "[mkRec ''P1'' 0.8 ''content-based'']"
      "mkRec ''P1'' 0.8 ''content-based''" "[mkRec ''P2'' 0.8 ''trending'']"]
  show ?thesis by (simp add: mkRec_def)
qed

text \<open>
  C10, as the code has it. The merged list is ordered by accumulated score, descending.
  Candidates with equal scores are not ordered by their productId: they keep the order in
  which their productIds first appear in the input lists (the insertion order of the
  \<^verbatim>\<open>Map\<close>, which the stable sort preserves).
\<close>

theorem combineRecommendations_order:
  "sorted_wrt (\<lambda>a b. score a \<ge> score b) (combineRecommendations srcs) \<and>
   subseq (map productId (filter (\<lambda>c. score c = v) (combineRecommendations srcs)))
          (firstSeen [] (concat (map (\<lambda>s. map productId (recommendations s)) srcs))) \<and>
   distinct (firstSeen [] (concat (map (\<lambda>s. map productId (recommendations s)) srcs)))"
proof (intro conjI)
  let ?merged = "map snd (mergeSources srcs)"
  have "sorted (map (\<lambda>r. - score r) (sort_key (\<lambda>r. - score r) ?merged))"
    by (rule sorted_sort_key)
  then show "sorted_wrt (\<lambda>a b. score a \<ge> score b) (combineRecommendations srcs)"
    by (simp add: sorted_map combineRecommendations_def sortByScore_def)
  have "filter (\<lambda>c. - score c = - v) (sort_key (\<lambda>r. - score r) ?merged) =
        filter (\<lambda>c. - score c = - v) ?merged"
    by (rule sort_key_stable)
  then have stable: "filter (\<lambda>c. score c = v) (combineRecommendations srcs) =
        filter (\<lambda>c. score c = v) ?merged"
    by (simp add: combineRecommendations_def sortByScore_def)
  have "subseq (map productId (filter (\<lambda>c. score c = v) ?merged)) (map productId ?merged)"
    by (rule subseq_map) simp
  then show "subseq (map productId (filter (\<lambda>c. score c = v) (combineRecommendations srcs)))
          (firstSeen [] (concat (map (\<lambda>s. map productId (recommendations s)) srcs)))"
    by (simp only: stable mergeSources_ids)
  show "distinct (firstSeen [] (concat (map (\<lambda>s. map productId (recommendations s)) srcs)))"
    by (rule distinct_firstSeen) simp
qed

theorem combineRecommendations_order_witness:
  "sorted_wrt (\<lambda>a b. score a \<ge> score b)
     (combineRecommendations
        [\<lparr>recommendations = [mkRec ''P2'' 0.5 ''trending'', mkRec ''P1'' 0.5 ''trending''],
          weight = 1\<rparr>]) \<and>
   subseq (map productId (filter (\<lambda>c. score c = 0.5)
       (combineRecommendations
          [\<lparr>recommendations = [mkRec ''P2'' 0.5 ''trending'', mkRec ''P1'' 0.5 ''trending''],
            weight = 1\<rparr>])))
     [''P2'', ''P1'']"
  using combineRecommendations_order
    [of "[\<lparr>recommendations = [mkRec ''P2'' 0.5 ''trending'', mkRec ''P1'' 0.5 ''trending''],
          weight = 1\<rparr>]" "0.5"]
  by (simp add: firstSeen_def mkRec_def)

text \<open>
  The same two products with the same two scores come out in either order, depending on
  the order of the input: the productId does not decide a tie.
\<close>

theorem combineRecommendations_order_counterexample:
  "map productId (combineRecommendations
      [\<lparr>recommendations = [mkRec ''P2'' 0.5 ''trending'', mkRec ''P1'' 0.5 ''trending''], weight = 1\<rparr>])
     = [''P2'', ''P1''] \<and>
   map score (combineRecommendations
      [\<lparr>recommendations = [mkRec ''P2'' 0.5 ''trending'', mkRec ''P1'' 0.5 ''trending''], weight = 1\<rparr>])
     = [0.5, 0.5] \<and>
   map productId (combineRecommendations
      [\<lparr>recommendations = [mkRec ''P1'' 0.5 ''trending'', mkRec ''P2'' 0.5 ''trending''], weight = 1\<rparr>])
     = [''P1'', ''P2''] \<and>
   map score (combineRecommendations
      [\<lparr>recommendations = [mkRec ''P1'' 0.5 ''trending'', mkRec ''P2'' 0.5 ''trending''], weight = 1\<rparr>])
     = [0.5, 0.5]"
  by (simp add: combineRecommendations_def mergeSources_def accumulate_def sortByScore_def mkRec_def)

subsection \<open>applyPersonalizationBoost and getRecommendations\<close>

lemma getCurrentSeason_claimed: "getCurrentSeason month = claimed_season month"
  by (simp add: getCurrentSeason_def claimed_season_def)

lemma categoryPreferred_Inr:
  "categoryPreferred cats p = Inr b \<Longrightarrow>
   b = (case category p of None \<Rightarrow> False | Some c \<Rightarrow> c \<in> set (map toString cats))"
  by (cases cats; cases "category p") (auto simp: categoryPreferred_def)

lemma boost_steps:
  "(let boost1 = (if a then 1 * 1.3 else (1::real));
        boost2 = (if b then boost1 * 1.2 else boost1);
        boost3 = (if c then boost2 * 1.4 else boost2);
        boost4 = (if d then boost3 * 1.1 else boost3)
    in boost4) =
   (if a then 1.3 else 1) * (if b then 1.2 else 1) * (if c then 1.4 else 1) * (if d then 1.1 else 1)"
  by (cases a; cases b; cases c; cases d) (simp_all add: Let_def)

lemma boostCandidate_Inr:
  assumes "boostCandidate u month p rec = Inr rec'"
  shows "rec' = rec\<lparr>score := score rec * applied_boost u month p,
                     boost := Some (applied_boost u month p)\<rparr>"
proof -
  from assms obtain a where a: "categoryPreferred (preferredCategories u) p = Inr a"
    by (auto simp: boostCandidate_def split: sum.splits)
  define b where "b \<longleftrightarrow> price p \<ge> range_min (preferredPriceRange u) \<and>
                       price p \<le> range_max (preferredPriceRange u)"
  define c where "c \<longleftrightarrow> brand p \<in> set (preferredBrands u)"
  define d where "d \<longleftrightarrow> getCurrentSeason month \<in> set (season p)"
  define B where "B = (let boost1 = (if a then 1 * 1.3 else (1::real));
        boost2 = (if b then boost1 * 1.2 else boost1);
        boost3 = (if c then boost2 * 1.4 else boost2);
        boost4 = (if d then boost3 * 1.1 else boost3)
    in boost4)"
  have "boostCandidate u month p rec = Inr (rec\<lparr>score := score rec * B, boost := Some B\<rparr>)"
    by (simp only: boostCandidate_def a B_def b_def c_def d_def Let_def sum.case)
  with assms have rec': "rec' = rec\<lparr>score := score rec * B, boost := Some B\<rparr>"
    by simp
  have "applied_boost u month p =
        (if a then 1.3 else 1) * (if b then 1.2 else 1) * (if c then 1.4 else 1) *
        (if d then 1.1 else 1)"
    unfolding applied_boost_def categoryPreferred_Inr [OF a] b_def c_def d_def
    by (simp only: conj_commute)
  then have "B = applied_boost u month p"
    unfolding B_def by (simp only: boost_steps)
  with rec' show ?thesis by simp
qed

lemma productMap_lookup:
  "distinct (map product_id products) \<Longrightarrow>
   map_of (fold (\<lambda>p m. AList.update (product_id p) p m) products acc) k =
   (case find (\<lambda>p. product_id p = k) products of Some q \<Rightarrow> Some q | None \<Rightarrow> map_of acc k)"
proof (induction products arbitrary: acc)
  case Nil
  then show ?case by simp
next
  case (Cons p ps)
  from Cons.prems have d: "distinct (map product_id ps)" and fresh: "product_id p \<notin> product_id ` set ps"
    by simp_all
  show ?case
  proof (cases "product_id p = k")
    case True
    have "find (\<lambda>p. product_id p = k) ps = None"
      unfolding find_None_iff
    proof (rule notI, elim exE conjE)
      fix x assume "x \<in> set ps" and "product_id x = k"
      then have "product_id p \<in> product_id ` set ps" using True by (metis imageI)
      with fresh show False by simp
    qed
    then show ?thesis using Cons.IH [OF d, of "AList.update (product_id p) p acc"] True
      by (simp add: update_conv')
  next
    case False
    then show ?thesis using Cons.IH [OF d, of "AList.update (product_id p) p acc"]
      by (simp add: update_conv' split: option.splits)
  qed
qed

lemma mapE_Inr_map:
  "mapE f xs = Inr ys \<Longrightarrow> (\<And>x y. x \<in> set xs \<Longrightarrow> f x = Inr y \<Longrightarrow> y = g x) \<Longrightarrow> ys = map g xs"
proof (induction xs arbitrary: ys)
  case Nil
  then show ?case by simp
next
  case (Cons x xs)
  from Cons.prems(1) obtain y rest where y: "f x = Inr y" and rest: "mapE f xs = Inr rest"
    and ys: "ys = y # rest"
    by (auto split: sum.splits)
  have "rest = map g xs" using Cons.IH [OF rest] Cons.prems(2) by simp
  moreover have "y = g x" using Cons.prems(2) [of x y] y by simp
  ultimately show ?case using ys by simp
qed

text \<open>What \<open>applyPersonalizationBoost\<close> returns, for product documents of distinct ids:
  each candidate whose product was found has its score multiplied by the boost that the
  code computes, the others are returned as they are, and the list is sorted.\<close>

lemma applyPersonalizationBoost_Inr:
  assumes out: "applyPersonalizationBoost w recs u = Inr out"
    and q: "findProductsByIds w (map productId recs) = Inr products"
    and d: "distinct (map product_id products)"
  shows "out = sortByScore (map (applied_boosted u (currentMonth w) products) recs)"
proof -
  let ?pm = "fold (\<lambda>p m. AList.update (product_id p) p m) products []"
  let ?f = "\<lambda>rec. case map_of ?pm (productId rec) of
                None \<Rightarrow> Inr rec
              | Some product' \<Rightarrow> boostCandidate u (currentMonth w) product' rec"
  from out q obtain boosted where b: "mapE ?f recs = Inr boosted" and o: "out = sortByScore boosted"
    by (auto simp: applyPersonalizationBoost_def Let_def split: sum.splits)
  have "boosted = map (applied_boosted u (currentMonth w) products) recs"
  proof (rule mapE_Inr_map [OF b])
    fix x y assume "?f x = Inr y"
    then show "y = applied_boosted u (currentMonth w) products x"
      by (auto simp: productMap_lookup [OF d] applied_boosted_def
          dest: boostCandidate_Inr split: option.splits)
  qed
  with o show ?thesis by simp
qed

text \<open>On the ids as they are stored the test of the code is the one of the
  specification, and the boost is the claimed one.\<close>

lemma applied_boost_stored:
  assumes "\<forall>cat\<in>set (preferredCategories u). \<exists>i. cat = ObjectId i"
  shows "applied_boost u month p = claimed_boost u month p"
proof -
  from assms have "map toString (preferredCategories u) = map category_of (preferredCategories u)"
    by (intro map_cong) auto
  then show ?thesis
    by (simp only: applied_boost_def claimed_boost_def getCurrentSeason_claimed)
qed

text \<open>After \<^verbatim>\<open>populate\<close> every preferred category is a document, and the text that
  \<^verbatim>\<open>toString\<close> prints for a document is no id: it holds a brace, which no hexadecimal
  string does. So the pipeline never finds the product's category among the preferred
  ones.\<close>

lemma populateCategory_documents:
  "cat' \<in> set (populateCategory w cat) \<Longrightarrow> \<exists>d. cat' = Populated d"
  by (cases cat) (auto simp: populateCategory_def split: option.splits)

lemma populate_documents:
  "\<forall>cat\<in>set (preferredCategories (populate w u)). \<exists>d. cat = Populated d"
  by (auto simp: preferredCategories_def populate_def split: option.splits
      dest: populateCategory_documents)

lemma Document_toString_brace: "CHR ''{'' \<in> set (Document_toString d)"
  by (simp add: Document_toString_def)

lemma categoryPreferred_populated:
  assumes docs: "\<forall>cat\<in>set cats. \<exists>d. cat = Populated d"
    and c: "category p = Some c" and hex: "CHR ''{'' \<notin> set c"
  shows "categoryPreferred cats p = Inr False"
proof -
  have "toString cat \<noteq> c" if "cat \<in> set cats" for cat
  proof -
    from docs that obtain d where "cat = Populated d" by blast
    with hex Document_toString_brace [of d] show ?thesis by auto
  qed
  then show ?thesis
    using c by (cases cats) (auto simp: categoryPreferred_def)
qed

lemma populated_category_never_preferred:
  assumes "category p = Some c" and "CHR ''{'' \<notin> set c"
  shows "categoryPreferred (preferredCategories (populate w u)) p = Inr False"
  using populate_documents assms by (rule categoryPreferred_populated)

text \<open>The boost is 1 when no rule holds and at most 1.3 * 1.2 * 1.4 * 1.1, as claimed
  and as applied.\<close>

lemma claimed_boost_bounds:
  "1 \<le> claimed_boost u month p \<and> claimed_boost u month p \<le> 1.3 * 1.2 * 1.4 * 1.1"
  by (simp add: claimed_boost_def)

lemma applied_boost_bounds:
  "1 \<le> applied_boost u month p \<and> applied_boost u month p \<le> 1.3 * 1.2 * 1.4 * 1.1"
  by (simp add: applied_boost_def)

text \<open>The run of \<open>getRecommendations\<close> in the store \<open>shop\<close> for its user, step by step.\<close>

lemma shop_populate: "populate shop stored_shopper = populated_shopper"
  by (simp add: populate_def populateCategory_def shop_def stored_shopper_def populated_shopper_def)

lemma shop_initialize:
  "initialize shop new_engine = \<lparr>userItemMatrix = Some shop_matrix, isInitialized = True\<rparr>"
  by (simp add: initialize_def shop_def new_engine_def loadUserItemMatrix_def stored_shopper_def
      view_now_def product_P1_def product_P2_def calculateRecencyScore_def Let_def shop_matrix_def)

lemma shop_collaborative: "getCollaborativeRecommendations (Some shop_matrix) ''U'' n = Inr []"
  by (simp add: getCollaborativeRecommendations_def getRow_def similarUsers_def sortByScore_def
      Let_def shop_matrix_def)

lemma shop_combined:
  "combineRecommendations
           [\<lparr>recommendations = [], weight = 0.4\<rparr>,
            \<lparr>recommendations = [mkRec ''P1'' 0.9 ''content-based''], weight = 0.4\<rparr>,
            \<lparr>recommendations = [mkRec ''P2'' 0.8 ''trending'', mkRec ''P1'' 0.8 ''trending''],
             weight = 0.2\<rparr>]
   = [merged_P1, merged_P2]"
  by (simp add: combineRecommendations_def mergeSources_def accumulate_def mkRec_def
      sortByScore_def Let_def merged_P1_def merged_P2_def)

lemma shop_boost_P1:
  "boostCandidate populated_shopper 6 product_P1 merged_P1 =
   Inr \<lparr>productId = ''P1'', score = 0.96096, sources = [''content-based'', ''trending''],
         boost = Some 1.848\<rparr>"
  by (simp add: boostCandidate_def categoryPreferred_def getCurrentSeason_def Let_def
      populated_shopper_def product_P1_def preferredCategories_def preferredBrands_def
      preferredPriceRange_def shoes_def Document_toString_def merged_P1_def)

lemma shop_boost_P2:
  "boostCandidate populated_shopper 6 product_P2 merged_P2 =
   Inr \<lparr>productId = ''P2'', score = 0.16, sources = [''trending''], boost = Some 1\<rparr>"
  by (simp add: boostCandidate_def categoryPreferred_def getCurrentSeason_def Let_def
      populated_shopper_def product_P2_def preferredCategories_def preferredBrands_def
      preferredPriceRange_def shoes_def Document_toString_def merged_P2_def)

lemma shop_boosted:
  "applyPersonalizationBoost shop [merged_P1, merged_P2] populated_shopper =
   Inr [\<lparr>productId = ''P1'', score = 0.96096, sources = [''content-based'', ''trending''],
          boost = Some 1.848\<rparr>,
        \<lparr>productId = ''P2'', score = 0.16, sources = [''trending''], boost = Some 1\<rparr>]"
proof -
  have q: "findProductsByIds shop (map productId [merged_P1, merged_P2]) =
      Inr [product_P1, product_P2]"
    by (simp add: shop_def merged_P1_def merged_P2_def product_P1_def product_P2_def)
  have pm: "fold (\<lambda>p m. AList.update (product_id p) p m) [product_P1, product_P2] [] =
      [(''P1'', product_P1), (''P2'', product_P2)]"
    by (simp add: product_P1_def product_P2_def)
  have ids: "productId merged_P1 = ''P1''" "productId merged_P2 = ''P2''"
    by (simp_all add: merged_P1_def merged_P2_def)
  have month: "currentMonth shop = 6" by (simp add: shop_def)
  show ?thesis
    unfolding applyPersonalizationBoost_def q sum.case Let_def pm
    by (simp add: ids month shop_boost_P1 shop_boost_P2 sortByScore_def)
qed

lemma shop_try:
  "getRecommendations_try shop (Some shop_matrix) ''U'' 10 True =
   Inr [\<lparr>productId = ''P1'', score = 0.96096, sources = [''content-based'', ''trending''],
          boost = Some 1.848\<rparr>,
        \<lparr>productId = ''P2'', score = 0.16, sources = [''trending''], boost = Some 1\<rparr>]"
proof -
  have u: "findUser shop ''U'' = Inr (Some stored_shopper)" by (simp add: shop_def)
  have c: "contentBased shop ''U'' (10 * 2) = Inr [mkRec ''P1'' 0.9 ''content-based'']"
    by (simp add: shop_def)
  have t: "getTrendingRecommendations shop 10 =
      Inr [mkRec ''P2'' 0.8 ''trending'', mkRec ''P1'' 0.8 ''trending'']"
    by (simp add: getTrendingRecommendations_def shop_def Query_limit_def mkRec_def)
  have v: "excludeRecentlyViewed populated_shopper True [merged_P1, merged_P2] =
      Inr [merged_P1, merged_P2]"
    by (simp add: excludeRecentlyViewed_def populated_shopper_def)
  show ?thesis
    unfolding getRecommendations_try_def u sum.case option.case Let_def shop_populate
      shop_collaborative c t shop_combined v shop_boosted
    by simp
qed

lemma shop_run:
  "fst (getRecommendations shop new_engine ''U'' 10 True) =
   Inr (Personalized
     [\<lparr>productId = ''P1'', score = 0.96096, sources = [''content-based'', ''trending''],
          boost = Some 1.848\<rparr>,
      \<lparr>productId = ''P2'', score = 0.16, sources = [''trending''], boost = Some 1\<rparr>])"
proof -
  have n: "\<not> isInitialized new_engine" by (simp add: new_engine_def)
  show ?thesis
    unfolding getRecommendations_def Let_def using n
    by (simp add: shop_initialize shop_try)
qed

text \<open>
  C4. The boost that the pipeline applies lacks the factor of the category. In the store
  \<open>shop\<close> the user prefers the category \<open>shoes\<close> of the first product, its brand and a
  price range holding its price, and the month is July, in the product's season: all
  four rules of the claim hold and the claimed boost is 1.3 * 1.2 * 1.4 * 1.1 = 2.4024.
  \<open>getRecommendations\<close> reads the user with \<^verbatim>\<open>populate('preferences.categories')\<close>, so
  \<^verbatim>\<open>cat.toString()\<close> is the text of the Category document and differs from
  \<^verbatim>\<open>product.category._id.toString()\<close>: the boost applied is 1.2 * 1.4 * 1.1 = 1.848, and
  the merged score 0.52 becomes 0.96096 instead of 1.249248.
\<close>

theorem applyPersonalizationBoost_category_lost:
  "findUser shop ''U'' = Inr (Some stored_shopper) \<and>
   populate shop stored_shopper = populated_shopper \<and>
   category product_P1 = Some ''shoes'' \<and>
   map category_of (preferredCategories populated_shopper) = [''shoes''] \<and>
   claimed_boost populated_shopper 6 product_P1 = 1.3 * 1.2 * 1.4 * 1.1 \<and>
   claimed_boosted populated_shopper 6 [product_P1, product_P2] merged_P1 =
     \<lparr>productId = ''P1'', score = 1.249248, sources = [''content-based'', ''trending''],
      boost = Some 2.4024\<rparr> \<and>
   applyPersonalizationBoost shop [merged_P1, merged_P2] populated_shopper =
     Inr [\<lparr>productId = ''P1'', score = 0.96096, sources = [''content-based'', ''trending''],
            boost = Some 1.848\<rparr>,
          \<lparr>productId = ''P2'', score = 0.16, sources = [''trending''], boost = Some 1\<rparr>] \<and>
   fst (getRecommendations shop new_engine ''U'' 10 True) =
     Inr (Personalized
       [\<lparr>productId = ''P1'', score = 0.96096, sources = [''content-based'', ''trending''],
          boost = Some 1.848\<rparr>,
        \<lparr>productId = ''P2'', score = 0.16, sources = [''trending''], boost = Some 1\<rparr>])"
proof -
  have u: "findUser shop ''U'' = Inr (Some stored_shopper)" by (simp add: shop_def)
  have c: "category product_P1 = Some ''shoes''" by (simp add: product_P1_def)
  have p: "map category_of (preferredCategories populated_shopper) = [''shoes'']"
    by (simp add: preferredCategories_def populated_shopper_def shoes_def)
  have b: "claimed_boost populated_shopper 6 product_P1 = 1.3 * 1.2 * 1.4 * 1.1"
    by (simp add: claimed_boost_def p c claimed_season_def)
      (simp add: populated_shopper_def product_P1_def preferredBrands_def preferredPriceRange_def)
  have f: "find (\<lambda>p. product_id p = productId merged_P1) [product_P1, product_P2] =
      Some product_P1"
    by (simp add: merged_P1_def product_P1_def)
  have "claimed_boosted populated_shopper 6 [product_P1, product_P2] merged_P1 =
     \<lparr>productId = ''P1'', score = 1.249248, sources = [''content-based'', ''trending''],
      boost = Some 2.4024\<rparr>"
    unfolding claimed_boosted_def f option.case b by (simp add: merged_P1_def)
  with u c p b shop_populate shop_boosted shop_run show ?thesis by blast
qed

lemma mapE_throws:
  "\<exists>x\<in>set xs. \<exists>e. f x = Inl e \<Longrightarrow> \<exists>e. mapE f xs = Inl e"
proof (induction xs)
  case Nil
  then show ?case by simp
next
  case (Cons x xs)
  show ?case
  proof (cases "f x")
    case (Inl e)
    then show ?thesis by simp
  next
    case (Inr y)
    with Cons.prems have "\<exists>x\<in>set xs. \<exists>e. f x = Inl e" by auto
    from Cons.IH [OF this] Inr show ?thesis by auto
  qed
qed

lemma mapE_preserves:
  "mapE f xs = Inr ys \<Longrightarrow> (\<And>x y. x \<in> set xs \<Longrightarrow> f x = Inr y \<Longrightarrow> h y = h x) \<Longrightarrow>
   map h ys = map h xs"
proof (induction xs arbitrary: ys)
  case Nil
  then show ?case by simp
next
  case (Cons x xs)
  from Cons.prems(1) obtain y rest where y: "f x = Inr y" and rest: "mapE f xs = Inr rest"
    and ys: "ys = y # rest"
    by (auto split: sum.splits)
  have "map h rest = map h xs" using Cons.IH [OF rest] Cons.prems(2) by simp
  moreover have "h y = h x" using Cons.prems(2) [of x y] y by simp
  ultimately show ?case using ys by simp
qed

lemma boostCandidate_productId:
  "boostCandidate u month p rec = Inr rec' \<Longrightarrow> productId rec' = productId rec"
  by (auto simp: boostCandidate_def Let_def split: sum.splits)

lemma applyPersonalizationBoost_ids:
  assumes "applyPersonalizationBoost w recs u = Inr out"
  shows "distinct (map productId out) = distinct (map productId recs) \<and> length out = length recs"
proof -
  from assms obtain products boosted where
    b: "mapE (\<lambda>rec. case map_of (fold (\<lambda>p m. AList.update (product_id p) p m) products [])
                          (productId rec) of
                None \<Rightarrow> Inr rec
              | Some product' \<Rightarrow> boostCandidate u (currentMonth w) product' rec) recs = Inr boosted"
    and o: "out = sortByScore boosted"
    by (auto simp: applyPersonalizationBoost_def Let_def split: sum.splits)
  have ids: "map productId boosted = map productId recs"
    by (rule mapE_preserves [OF b]) (auto split: option.splits dest: boostCandidate_productId)
  then have len: "length boosted = length recs" by (metis length_map)
  have "distinct (map productId out) = distinct (map productId boosted)"
    by (simp only: o distinct_map_sortByScore)
  moreover have "length out = length boosted"
    by (simp add: o sortByScore_def)
  ultimately show ?thesis using ids len by simp
qed

lemma excludeRecentlyViewed_distinct:
  "excludeRecentlyViewed u ex combined = Inr filtered \<Longrightarrow> distinct (map productId combined) \<Longrightarrow>
   distinct (map productId filtered)"
  by (auto simp: excludeRecentlyViewed_def distinct_map_filter split: if_splits sum.splits)

text \<open>The normal path: the merge map holds each productId once, the filter and the
  boost keep that, and \<^verbatim>\<open>slice(0, limit)\<close> cuts the list, also for a limit of 0.\<close>

lemma getRecommendations_try_distinct:
  assumes "getRecommendations_try w M userId limit ex = Inr recs"
  shows "distinct (map productId recs) \<and> length recs \<le> limit"
proof -
  from assms obtain u collaborativeRecs contentBasedRecs trendingRecs filtered personalized where
    f: "excludeRecentlyViewed u ex (combineRecommendations
           [\<lparr>recommendations = collaborativeRecs, weight = 0.4\<rparr>,
            \<lparr>recommendations = contentBasedRecs, weight = 0.4\<rparr>,
            \<lparr>recommendations = trendingRecs, weight = 0.2\<rparr>]) = Inr filtered"
    and p: "applyPersonalizationBoost w filtered u = Inr personalized"
    and r: "recs = take limit personalized"
    by (auto simp: getRecommendations_try_def Let_def split: sum.splits option.splits)
  have "distinct (map productId filtered)"
    by (rule excludeRecentlyViewed_distinct [OF f combineRecommendations_ids_distinct])
  then have "distinct (map productId personalized)"
    using applyPersonalizationBoost_ids [OF p] by simp
  then have "distinct (take limit (map productId personalized))"
    by (rule distinct_take)
  then show ?thesis by (simp add: r take_map)
qed

lemma getFallbackRecommendations_ids:
  "\<exists>fb. getFallbackRecommendations w limit = Inr fb \<and>
     map productId fb =
       (case featuredProducts w of Inr ids \<Rightarrow> Query_limit limit ids | Inl e \<Rightarrow> [])"
  by (auto simp: getFallbackRecommendations_def comp_def split: sum.splits)

text \<open>The fallback path for a limit that is not 0, on a store whose featured-products
  query returns each product once: the list is cut by \<^verbatim>\<open>.limit(limit)\<close>.\<close>

lemma getRecommendations_limited:
  assumes pos: "0 < limit"
    and ids: "\<forall>ids. featuredProducts w = Inr ids \<longrightarrow> distinct ids"
  shows "\<exists>r. fst (getRecommendations w eng userId limit excludeViewed) = Inr r \<and>
             distinct (response_ids r) \<and> length (response_ids r) \<le> limit"
proof -
  define M where "M = userItemMatrix (if \<not> isInitialized eng then initialize w eng else eng)"
  show ?thesis
  proof (cases "getRecommendations_try w M userId limit excludeViewed")
    case (Inr recs)
    from getRecommendations_try_distinct [OF Inr] Inr show ?thesis
      by (simp add: getRecommendations_def M_def Let_def)
  next
    case (Inl e)
    obtain fb where fb: "getFallbackRecommendations w limit = Inr fb"
      and m: "map productId fb =
        (case featuredProducts w of Inr ids \<Rightarrow> Query_limit limit ids | Inl e \<Rightarrow> [])"
      using getFallbackRecommendations_ids by blast
    have "distinct (map productId fb) \<and> length (map productId fb) \<le> limit"
      unfolding m using pos ids by (auto simp: Query_limit_def split: sum.splits)
    with Inl fb show ?thesis by (simp add: getRecommendations_def M_def Let_def)
  qed
qed

lemma shop_fallback:
  "getFallbackRecommendations shop 0 =
     Inr [\<lparr>productId = ''P2'', score = 0.5, rtype = ''fallback''\<rparr>,
          \<lparr>productId = ''P1'', score = 0.5, rtype = ''fallback''\<rparr>]"
  by (simp add: getFallbackRecommendations_def shop_def Query_limit_def)

lemma shop_unknown_user:
  "getRecommendations_try shop M ''nobody'' limit ex = Inl (Error ''User not found'')"
  by (simp add: getRecommendations_try_def shop_def)

lemma mapE_total: "\<forall>x\<in>set xs. \<exists>y. f x = Inr y \<Longrightarrow> \<exists>ys. mapE f xs = Inr ys"
proof (induction xs)
  case Nil
  then show ?case by simp
next
  case (Cons x xs)
  then obtain y ys where "f x = Inr y" "mapE f xs = Inr ys" by auto
  then show ?case by simp
qed

lemma categoryPreferred_total: "category p \<noteq> None \<Longrightarrow> \<exists>b. categoryPreferred cats p = Inr b"
  by (cases cats) (auto simp: categoryPreferred_def)

lemma boostCandidate_total:
  assumes "category p \<noteq> None"
  shows "\<exists>rec'. boostCandidate u month p rec = Inr rec'"
proof -
  from categoryPreferred_total [OF assms] obtain b where
    "categoryPreferred (preferredCategories u) p = Inr b" by blast
  then show ?thesis by (simp add: boostCandidate_def Let_def)
qed

lemma productMap_member:
  "map_of (fold (\<lambda>p m. AList.update (product_id p) p m) products acc) k = Some q \<Longrightarrow>
   q \<in> set products \<or> map_of acc k = Some q"
proof (induction products arbitrary: acc)
  case Nil
  then show ?case by simp
next
  case (Cons p ps)
  from Cons.IH [OF Cons.prems [simplified]] show ?case
    by (auto simp: update_conv' split: if_splits)
qed

text \<open>The boost step returns when the product read returns and every product it found
  has its category.\<close>

lemma applyPersonalizationBoost_total:
  assumes q: "findProductsByIds w (map productId recs) = Inr products"
    and c: "\<forall>p\<in>set products. category p \<noteq> None"
  shows "\<exists>out. applyPersonalizationBoost w recs u = Inr out"
proof -
  let ?f = "\<lambda>rec. case map_of (fold (\<lambda>p m. AList.update (product_id p) p m) products [])
                          (productId rec) of
                None \<Rightarrow> Inr rec
              | Some product' \<Rightarrow> boostCandidate u (currentMonth w) product' rec"
  have "\<exists>y. ?f rec = Inr y" for rec
  proof (cases "map_of (fold (\<lambda>p m. AList.update (product_id p) p m) products []) (productId rec)")
    case None
    then show ?thesis by simp
  next
    case (Some p)
    with productMap_member [OF Some] c have "category p \<noteq> None" by auto
    from boostCandidate_total [OF this] Some show ?thesis by simp
  qed
  then have "\<exists>ys. mapE ?f recs = Inr ys" by (intro mapE_total) blast
  then show ?thesis
    unfolding applyPersonalizationBoost_def q sum.case Let_def by auto
qed

lemma shop_limit_zero:
  "getRecommendations_try shop (Some shop_matrix) ''U'' 0 True = Inr []"
proof -
  have u: "findUser shop ''U'' = Inr (Some stored_shopper)" by (simp add: shop_def)
  have c: "contentBased shop ''U'' (0 * 2) = Inr []"
    by (simp add: shop_def)
  have v: "excludeRecentlyViewed populated_shopper True recs = Inr recs" for recs
    by (simp add: excludeRecentlyViewed_def populated_shopper_def)
  obtain t where t: "getTrendingRecommendations shop 0 = Inr t"
    by (simp add: getTrendingRecommendations_def shop_def)
  have "\<exists>products. findProductsByIds shop ids = Inr products \<and>
      (\<forall>p\<in>set products. category p \<noteq> None)" for ids
    by (simp add: shop_def product_P1_def product_P2_def)
  then obtain out where "applyPersonalizationBoost shop
      (combineRecommendations
           [\<lparr>recommendations = [], weight = 0.4\<rparr>,
            \<lparr>recommendations = [], weight = 0.4\<rparr>,
            \<lparr>recommendations = t, weight = 0.2\<rparr>]) populated_shopper = Inr out"
    using applyPersonalizationBoost_total by blast
  then show ?thesis
    unfolding getRecommendations_try_def u sum.case option.case Let_def shop_populate
      shop_collaborative c t v
    by simp
qed

text \<open>
  C5. On the normal path the result has no two entries with the same productId and at
  most \<open>limit\<close> entries, for every limit (\<open>getRecommendations_try_distinct\<close>), and so has
  the fallback list for a limit that is not 0 (\<open>getRecommendations_limited\<close>). For a
  limit of 0 the fallback path returns every featured product: its only cut is the
  \<^verbatim>\<open>.limit(limit)\<close> of the query, and a limit of 0 is no limit, while the normal path
  cuts with \<^verbatim>\<open>slice(0, limit)\<close> and returns the empty list. In the store with two
  featured products, the call for an unknown user and limit 0 returns two entries; the
  call for the known user returns none.
\<close>

theorem getFallbackRecommendations_limit_zero:
  "fst (getRecommendations shop new_engine ''nobody'' 0 True) =
     Inr (FallbackList [\<lparr>productId = ''P2'', score = 0.5, rtype = ''fallback''\<rparr>,
                        \<lparr>productId = ''P1'', score = 0.5, rtype = ''fallback''\<rparr>]) \<and>
   length (response_ids (FallbackList [\<lparr>productId = ''P2'', score = 0.5, rtype = ''fallback''\<rparr>,
                        \<lparr>productId = ''P1'', score = 0.5, rtype = ''fallback''\<rparr>])) = 2 \<and>
   fst (getRecommendations shop new_engine ''U'' 0 True) = Inr (Personalized [])"
proof -
  have n: "\<not> isInitialized new_engine" by (simp add: new_engine_def)
  have "fst (getRecommendations shop new_engine ''nobody'' 0 True) =
     Inr (FallbackList [\<lparr>productId = ''P2'', score = 0.5, rtype = ''fallback''\<rparr>,
                        \<lparr>productId = ''P1'', score = 0.5, rtype = ''fallback''\<rparr>])"
    unfolding getRecommendations_def Let_def using n
    by (simp add: shop_unknown_user shop_fallback)
  moreover have "fst (getRecommendations shop new_engine ''U'' 0 True) = Inr (Personalized [])"
    unfolding getRecommendations_def Let_def using n
    by (simp add: shop_initialize shop_limit_zero)
  ultimately show ?thesis by simp
qed

text \<open>\<open>getRecommendations\<close> never throws: the \<^verbatim>\<open>catch\<close> block calls
  \<open>getFallbackRecommendations\<close>, which catches the errors of its own query.\<close>

lemma getRecommendations_returns:
  "\<exists>r. fst (getRecommendations w eng userId limit excludeViewed) = Inr r"
proof -
  obtain fb where "getFallbackRecommendations w limit = Inr fb"
    using getFallbackRecommendations_ids by blast
  then show ?thesis
    by (auto simp: getRecommendations_def Let_def split: sum.splits)
qed

text \<open>The stages whose exceptions reach the \<^verbatim>\<open>catch\<close> block of \<open>getRecommendations\<close>.\<close>

lemma getRecommendations_try_throws:
  assumes h: "(\<exists>e. findUser w userId = Inl e) \<or> findUser w userId = Inr None \<or>
      (\<exists>e. getCollaborativeRecommendations M userId (limit * 2) = Inl e) \<or>
      (\<exists>e. contentBased w userId (limit * 2) = Inl e) \<or>
      (\<exists>u. findUser w userId = Inr (Some u) \<and> excludeViewed \<and> None \<in> set (recentlyViewed u)) \<or>
      (\<forall>ids. \<exists>e. findProductsByIds w ids = Inl e)"
  shows "\<exists>e. getRecommendations_try w M userId limit excludeViewed = Inl e"
proof (cases "getRecommendations_try w M userId limit excludeViewed")
  case (Inl e)
  then show ?thesis by blast
next
  case (Inr recs)
  have viewed: "\<exists>e. mapE (\<lambda>item. case item of None \<Rightarrow> Inl TypeError | Some p \<Rightarrow> Inr p) items =
        (Inl e :: error + string list)" if "None \<in> set items" for items :: "string option list"
  proof -
    from that have "\<exists>x\<in>set items.
        \<exists>e. (case x of None \<Rightarrow> Inl TypeError | Some p \<Rightarrow> Inr p) = (Inl e :: error + string)"
      by (intro bexI [where x = None]) simp_all
    then show ?thesis by (rule mapE_throws)
  qed
  from Inr obtain u collaborativeRecs contentBasedRecs filtered personalized where
    fu: "findUser w userId = Inr (Some u)"
    and co: "getCollaborativeRecommendations M userId (limit * 2) = Inr collaborativeRecs"
    and cb: "contentBased w userId (limit * 2) = Inr contentBasedRecs"
    and ex: "excludeRecentlyViewed (populate w u) excludeViewed
               (combineRecommendations
                 [\<lparr>recommendations = collaborativeRecs, weight = 0.4\<rparr>,
                  \<lparr>recommendations = contentBasedRecs, weight = 0.4\<rparr>,
                  \<lparr>recommendations =
                     (case getTrendingRecommendations w limit of Inr t \<Rightarrow> t | Inl e \<Rightarrow> []),
                   weight = 0.2\<rparr>]) = Inr filtered"
    and ap: "applyPersonalizationBoost w filtered (populate w u) = Inr personalized"
    by (auto simp: getRecommendations_try_def Let_def split: sum.splits option.splits)
  have "recentlyViewed (populate w u) = recentlyViewed u" by (simp add: populate_def)
  with ex have "\<not> (excludeViewed \<and> None \<in> set (recentlyViewed u))"
    using viewed [of "recentlyViewed u"]
    by (auto simp: excludeRecentlyViewed_def split: if_splits sum.splits)
  moreover from ap have "\<exists>products. findProductsByIds w (map productId filtered) = Inr products"
    by (auto simp: applyPersonalizationBoost_def split: sum.splits)
  then have "\<not> (\<forall>ids. \<exists>e. findProductsByIds w ids = Inl e)"
    by (metis sum.distinct(1))
  ultimately have False using h fu co cb by auto
  then show ?thesis ..
qed

text \<open>An exception of the trending query is caught in \<open>getTrendingRecommendations\<close>: the
  call goes on as in a store without trending products.\<close>

lemma trending_failure_swallowed:
  assumes "trendingProducts w = Inl e"
  shows "getRecommendations w eng userId limit excludeViewed =
         getRecommendations (w\<lparr>trendingProducts := Inr []\<rparr>) eng userId limit excludeViewed"
proof -
  let ?w = "w\<lparr>trendingProducts := Inr []\<rparr>"
  have same: "findUser ?w = findUser w" "findCategory ?w = findCategory w"
    "findProductsByIds ?w = findProductsByIds w" "featuredProducts ?w = featuredProducts w"
    "contentBased ?w = contentBased w" "activeUsers ?w = activeUsers w"
    "activeProducts ?w = activeProducts w" "currentTime ?w = currentTime w"
    "currentMonth ?w = currentMonth w"
    by simp_all
  have t: "getTrendingRecommendations ?w n = getTrendingRecommendations w n" for n
    using assms by (simp add: getTrendingRecommendations_def Query_limit_def)
  have "populateCategory ?w = populateCategory w"
    unfolding populateCategory_def same by (rule refl)
  then have p: "populate ?w = populate w"
    unfolding populate_def by simp
  have b: "applyPersonalizationBoost ?w = applyPersonalizationBoost w"
    unfolding applyPersonalizationBoost_def same by (rule refl)
  have tr: "getRecommendations_try ?w = getRecommendations_try w"
    unfolding getRecommendations_try_def t p b same by (rule refl)
  have fb: "getFallbackRecommendations ?w = getFallbackRecommendations w"
    unfolding getFallbackRecommendations_def same by (rule refl)
  have init: "initialize ?w = initialize w"
    unfolding initialize_def same by (rule refl)
  show ?thesis
    unfolding getRecommendations_def tr fb init by (rule refl)
qed

text \<open>An exception while the matrix is loaded is caught in \<open>loadUserItemMatrix\<close>:
  \<open>initialize\<close> sets the flag and keeps the matrix that the engine had.\<close>

lemma initialize_failure_swallowed:
  assumes "(\<exists>e. activeUsers w = Inl e) \<or> (\<exists>e. activeProducts w = Inl e) \<or>
      (\<exists>users products e. activeUsers w = Inr users \<and> activeProducts w = Inr products \<and>
         loadUserItemMatrix (currentTime w) users products = Inl e)"
  shows "initialize w eng = eng\<lparr>isInitialized := True\<rparr>"
  using assms by (auto simp: initialize_def Let_def split: sum.splits)

text \<open>
  C6, as the code has it. \<open>getRecommendations\<close> never throws. When an exception reaches
  its \<^verbatim>\<open>catch\<close> block, that is when its \<^verbatim>\<open>try\<close> block throws (as it does when the user
  read throws or finds no user, the collaborative or the content-based generator throws,
  a recently viewed entry has no product, or the product read of the boost step throws),
  the call returns the list of \<open>getFallbackRecommendations\<close>. That list has one entry per product that the
  featured-products query returned; it is empty when the query returns nothing and when
  the query itself throws. An exception of the trending query is caught in
  \<open>getTrendingRecommendations\<close> and the call goes on with an empty trending list; an
  exception while \<open>initialize\<close> loads the matrix is caught in \<open>loadUserItemMatrix\<close> and the
  call goes on with the matrix that the engine had. In both cases the result is the one
  of the normal path, not the fallback list.
\<close>

theorem getRecommendations_fallback:
  "(\<exists>r. fst (getRecommendations w eng userId limit excludeViewed) = Inr r) \<and>
   (\<exists>fb. getFallbackRecommendations w limit = Inr fb \<and>
      fb = (case featuredProducts w of
              Inr ids \<Rightarrow> map (\<lambda>i. \<lparr>productId = i, score = 0.5, rtype = ''fallback''\<rparr>)
                           (Query_limit limit ids)
            | Inl e \<Rightarrow> []) \<and>
      (\<forall>e. getRecommendations_try w
              (userItemMatrix (snd (getRecommendations w eng userId limit excludeViewed)))
              userId limit excludeViewed = Inl e \<longrightarrow>
         fst (getRecommendations w eng userId limit excludeViewed) = Inr (FallbackList fb)) \<and>
      ((\<exists>e. findUser w userId = Inl e) \<or> findUser w userId = Inr None \<or>
       (\<exists>e. getCollaborativeRecommendations
               (userItemMatrix (snd (getRecommendations w eng userId limit excludeViewed)))
               userId (limit * 2) = Inl e) \<or>
       (\<exists>e. contentBased w userId (limit * 2) = Inl e) \<or>
       (\<exists>u. findUser w userId = Inr (Some u) \<and> excludeViewed \<and> None \<in> set (recentlyViewed u)) \<or>
       (\<forall>ids. \<exists>e. findProductsByIds w ids = Inl e) \<longrightarrow>
         fst (getRecommendations w eng userId limit excludeViewed) = Inr (FallbackList fb))) \<and>
   ((\<exists>e. trendingProducts w = Inl e) \<longrightarrow>
      getTrendingRecommendations w limit = Inr [] \<and>
      getRecommendations w eng userId limit excludeViewed =
        getRecommendations (w\<lparr>trendingProducts := Inr []\<rparr>) eng userId limit excludeViewed) \<and>
   (\<not> isInitialized eng \<and>
    ((\<exists>e. activeUsers w = Inl e) \<or> (\<exists>e. activeProducts w = Inl e) \<or>
     (\<exists>users products e. activeUsers w = Inr users \<and> activeProducts w = Inr products \<and>
        loadUserItemMatrix (currentTime w) users products = Inl e)) \<longrightarrow>
      snd (getRecommendations w eng userId limit excludeViewed) = eng\<lparr>isInitialized := True\<rparr> \<and>
      fst (getRecommendations w eng userId limit excludeViewed) =
        fst (getRecommendations w (eng\<lparr>isInitialized := True\<rparr>) userId limit excludeViewed))"
proof (intro conjI)
  show "\<exists>r. fst (getRecommendations w eng userId limit excludeViewed) = Inr r"
    by (rule getRecommendations_returns)
next
  define M where "M = userItemMatrix (snd (getRecommendations w eng userId limit excludeViewed))"
  obtain fb where fb: "getFallbackRecommendations w limit = Inr fb"
    using getFallbackRecommendations_ids by blast
  then have "fb = (case featuredProducts w of
              Inr ids \<Rightarrow> map (\<lambda>i. \<lparr>productId = i, score = 0.5, rtype = ''fallback''\<rparr>)
                           (Query_limit limit ids)
            | Inl e \<Rightarrow> [])"
    by (auto simp: getFallbackRecommendations_def split: sum.splits)
  moreover have caught:
    "fst (getRecommendations w eng userId limit excludeViewed) = Inr (FallbackList fb)"
    if "getRecommendations_try w M userId limit excludeViewed = Inl e" for e
  proof -
    have "M = userItemMatrix (if \<not> isInitialized eng then initialize w eng else eng)"
      by (simp add: M_def getRecommendations_def Let_def)
    with that show ?thesis using fb by (simp add: getRecommendations_def Let_def)
  qed
  moreover have "fst (getRecommendations w eng userId limit excludeViewed) = Inr (FallbackList fb)"
    if "(\<exists>e. findUser w userId = Inl e) \<or> findUser w userId = Inr None \<or>
       (\<exists>e. getCollaborativeRecommendations M userId (limit * 2) = Inl e) \<or>
       (\<exists>e. contentBased w userId (limit * 2) = Inl e) \<or>
       (\<exists>u. findUser w userId = Inr (Some u) \<and> excludeViewed \<and> None \<in> set (recentlyViewed u)) \<or>
       (\<forall>ids. \<exists>e. findProductsByIds w ids = Inl e)"
  proof -
    from getRecommendations_try_throws [OF that] obtain e where
      "getRecommendations_try w M userId limit excludeViewed = Inl e" by blast
    then show ?thesis by (rule caught)
  qed
  ultimately show "\<exists>fb. getFallbackRecommendations w limit = Inr fb \<and>
      fb = (case featuredProducts w of
              Inr ids \<Rightarrow> map (\<lambda>i. \<lparr>productId = i, score = 0.5, rtype = ''fallback''\<rparr>)
                           (Query_limit limit ids)
            | Inl e \<Rightarrow> []) \<and>
      (\<forall>e. getRecommendations_try w
              (userItemMatrix (snd (getRecommendations w eng userId limit excludeViewed)))
              userId limit excludeViewed = Inl e \<longrightarrow>
         fst (getRecommendations w eng userId limit excludeViewed) = Inr (FallbackList fb)) \<and>
      ((\<exists>e. findUser w userId = Inl e) \<or> findUser w userId = Inr None \<or>
       (\<exists>e. getCollaborativeRecommendations
               (userItemMatrix (snd (getRecommendations w eng userId limit excludeViewed)))
               userId (limit * 2) = Inl e) \<or>
       (\<exists>e. contentBased w userId (limit * 2) = Inl e) \<or>
       (\<exists>u. findUser w userId = Inr (Some u) \<and> excludeViewed \<and> None \<in> set (recentlyViewed u)) \<or>
       (\<forall>ids. \<exists>e. findProductsByIds w ids = Inl e) \<longrightarrow>
         fst (getRecommendations w eng userId limit excludeViewed) = Inr (FallbackList fb))"
    using fb unfolding M_def by blast
next
  show "(\<exists>e. trendingProducts w = Inl e) \<longrightarrow>
      getTrendingRecommendations w limit = Inr [] \<and>
      getRecommendations w eng userId limit excludeViewed =
        getRecommendations (w\<lparr>trendingProducts := Inr []\<rparr>) eng userId limit excludeViewed"
    using trending_failure_swallowed [of w]
    by (auto simp: getTrendingRecommendations_def)
next
  show "\<not> isInitialized eng \<and>
    ((\<exists>e. activeUsers w = Inl e) \<or> (\<exists>e. activeProducts w = Inl e) \<or>
     (\<exists>users products e. activeUsers w = Inr users \<and> activeProducts w = Inr products \<and>
        loadUserItemMatrix (currentTime w) users products = Inl e)) \<longrightarrow>
      snd (getRecommendations w eng userId limit excludeViewed) = eng\<lparr>isInitialized := True\<rparr> \<and>
      fst (getRecommendations w eng userId limit excludeViewed) =
        fst (getRecommendations w (eng\<lparr>isInitialized := True\<rparr>) userId limit excludeViewed)"
  proof
    assume h: "\<not> isInitialized eng \<and>
      ((\<exists>e. activeUsers w = Inl e) \<or> (\<exists>e. activeProducts w = Inl e) \<or>
       (\<exists>users products e. activeUsers w = Inr users \<and> activeProducts w = Inr products \<and>
          loadUserItemMatrix (currentTime w) users products = Inl e))"
    then have "initialize w eng = eng\<lparr>isInitialized := True\<rparr>"
      using initialize_failure_swallowed by blast
    with h show "snd (getRecommendations w eng userId limit excludeViewed) =
        eng\<lparr>isInitialized := True\<rparr> \<and>
      fst (getRecommendations w eng userId limit excludeViewed) =
        fst (getRecommendations w (eng\<lparr>isInitialized := True\<rparr>) userId limit excludeViewed)"
      by (simp add: getRecommendations_def Let_def)
  qed
qed

lemma failing_shop_run:
  "fst (getRecommendations (failing_shop\<lparr>trendingProducts := Inr []\<rparr>) started_engine
          ''U'' 10 True) =
   Inr (Personalized [\<lparr>productId = ''P1'', score = 0.66528, sources = [''content-based''],
                        boost = Some 1.848\<rparr>])"
proof -
  let ?w = "failing_shop\<lparr>trendingProducts := Inr []\<rparr>"
  have u: "findUser ?w ''U'' = Inr (Some stored_shopper)"
    by (simp add: failing_shop_def shop_def)
  have p: "populate ?w stored_shopper = populated_shopper"
    by (simp add: populate_def populateCategory_def failing_shop_def shop_def stored_shopper_def
        populated_shopper_def)
  have co: "getCollaborativeRecommendations None ''U'' (10 * 2) = Inr []"
    by (simp add: getCollaborativeRecommendations_def)
  have c: "contentBased ?w ''U'' (10 * 2) = Inr [mkRec ''P1'' 0.9 ''content-based'']"
    by (simp add: failing_shop_def shop_def)
  have t: "getTrendingRecommendations ?w 10 = Inr []"
    by (simp add: getTrendingRecommendations_def Query_limit_def)
  have m: "combineRecommendations
           [\<lparr>recommendations = [], weight = 0.4\<rparr>,
            \<lparr>recommendations = [mkRec ''P1'' 0.9 ''content-based''], weight = 0.4\<rparr>,
            \<lparr>recommendations = [], weight = 0.2\<rparr>] = [content_P1]"
    by (simp add: combineRecommendations_def mergeSources_def accumulate_def mkRec_def
        sortByScore_def Let_def content_P1_def)
  have v: "excludeRecentlyViewed populated_shopper True [content_P1] = Inr [content_P1]"
    by (simp add: excludeRecentlyViewed_def populated_shopper_def)
  have q: "findProductsByIds ?w (map productId [content_P1]) = Inr [product_P1]"
    by (simp add: failing_shop_def shop_def content_P1_def product_P1_def product_P2_def)
  have pm: "fold (\<lambda>p m. AList.update (product_id p) p m) [product_P1] [] = [(''P1'', product_P1)]"
    by (simp add: product_P1_def)
  have b1: "boostCandidate populated_shopper 6 product_P1 content_P1 =
      Inr \<lparr>productId = ''P1'', score = 0.66528, sources = [''content-based''],
            boost = Some 1.848\<rparr>"
    by (simp add: boostCandidate_def categoryPreferred_def getCurrentSeason_def Let_def
        populated_shopper_def product_P1_def preferredCategories_def preferredBrands_def
        preferredPriceRange_def shoes_def Document_toString_def content_P1_def)
  have month: "currentMonth ?w = 6" by (simp add: failing_shop_def shop_def)
  have ids: "productId content_P1 = ''P1''" by (simp add: content_P1_def)
  have b: "applyPersonalizationBoost ?w [content_P1] populated_shopper =
      Inr [\<lparr>productId = ''P1'', score = 0.66528, sources = [''content-based''],
             boost = Some 1.848\<rparr>]"
    unfolding applyPersonalizationBoost_def q sum.case Let_def pm
    by (simp add: ids month b1 sortByScore_def)
  have "getRecommendations_try ?w None ''U'' 10 True =
      Inr [\<lparr>productId = ''P1'', score = 0.66528, sources = [''content-based''],
             boost = Some 1.848\<rparr>]"
    unfolding getRecommendations_try_def u sum.case option.case Let_def p co c t m v b
    by simp
  then show ?thesis
    by (simp add: getRecommendations_def started_engine_def)
qed

theorem getRecommendations_fallback_witness:
  "findUser failing_shop ''nobody'' = Inr None \<and>
   fst (getRecommendations failing_shop new_engine ''nobody'' 10 True) =
     Inr (FallbackList [\<lparr>productId = ''P2'', score = 0.5, rtype = ''fallback''\<rparr>,
                        \<lparr>productId = ''P1'', score = 0.5, rtype = ''fallback''\<rparr>]) \<and>
   trendingProducts failing_shop = Inl (Error ''connection lost'') \<and>
   activeUsers failing_shop = Inl (Error ''connection lost'') \<and>
   \<not> isInitialized new_engine \<and>
   snd (getRecommendations failing_shop new_engine ''U'' 10 True) = started_engine \<and>
   fst (getRecommendations failing_shop new_engine ''U'' 10 True) =
     Inr (Personalized [\<lparr>productId = ''P1'', score = 0.66528, sources = [''content-based''],
                          boost = Some 1.848\<rparr>])"
proof -
  have n: "findUser failing_shop ''nobody'' = Inr None"
    by (simp add: failing_shop_def shop_def)
  have f: "featuredProducts failing_shop = Inr [''P2'', ''P1'']"
    by (simp add: failing_shop_def shop_def)
  have t: "trendingProducts failing_shop = Inl (Error ''connection lost'')"
    and a: "activeUsers failing_shop = Inl (Error ''connection lost'')"
    by (simp_all add: failing_shop_def)
  have i: "\<not> isInitialized new_engine"
    and s: "new_engine\<lparr>isInitialized := True\<rparr> = started_engine"
    by (simp_all add: new_engine_def started_engine_def)
  from getRecommendations_fallback [of failing_shop new_engine "''nobody''" 10 True] n
  have "fst (getRecommendations failing_shop new_engine ''nobody'' 10 True) =
     Inr (FallbackList [\<lparr>productId = ''P2'', score = 0.5, rtype = ''fallback''\<rparr>,
                        \<lparr>productId = ''P1'', score = 0.5, rtype = ''fallback''\<rparr>])"
    by (auto simp: f Query_limit_def)
  moreover from getRecommendations_fallback [of failing_shop new_engine "''U''" 10 True] a i
  have "snd (getRecommendations failing_shop new_engine ''U'' 10 True) = started_engine"
    and "fst (getRecommendations failing_shop new_engine ''U'' 10 True) =
      fst (getRecommendations failing_shop started_engine ''U'' 10 True)"
    unfolding s by blast+
  moreover from getRecommendations_fallback [of failing_shop started_engine "''U''" 10 True] t
  have "getRecommendations failing_shop started_engine ''U'' 10 True =
      getRecommendations (failing_shop\<lparr>trendingProducts := Inr []\<rparr>) started_engine
        ''U'' 10 True"
    by blast
  ultimately show ?thesis using n t a i failing_shop_run by simp
qed

text \<open>
  The fallback list can be empty: for an unknown user in a store without featured
  products the \<^verbatim>\<open>try\<close> block throws and the call returns \<^verbatim>\<open>[]\<close>.
\<close>

theorem getRecommendations_fallback_counterexample:
  "getRecommendations_try empty_shop (userItemMatrix (initialize empty_shop new_engine))
     ''U'' 10 True = Inl (Error ''User not found'') \<and>
   fst (getRecommendations empty_shop new_engine ''U'' 10 True) = Inr (FallbackList [])"
  by (simp add: getRecommendations_def getRecommendations_try_def getFallbackRecommendations_def
      empty_shop_def new_engine_def Query_limit_def Let_def)

subsection \<open>The feature encoders\<close>

lemma createProductEmbedding_draws:
  "fst (createProductEmbedding textFeatures g p) ! 3 = shd g \<and>
   fst (createProductEmbedding textFeatures g p) ! 4 = shd (stl g) \<and>
   fst (createProductEmbedding textFeatures g p) ! 5 = shd (stl (stl g)) \<and>
   snd (createProductEmbedding textFeatures g p) = stl (stl (stl g))"
  by (simp add: createProductEmbedding_def encodeCategoryFeatures_def Math_random_def Let_def)

text \<open>
  C8. The encoders are not functions of the record alone: three entries of a product
  vector and two of a user vector are draws of \<^verbatim>\<open>Math.random()\<close>. For every product and
  every user, two evaluations that start from generator states with different draws
  return different vectors.
\<close>

theorem createProductEmbedding_not_deterministic:
  "fst (createProductEmbedding textFeatures (sconst 0.25) p) \<noteq>
   fst (createProductEmbedding textFeatures (sconst 0.75) p) \<and>
   fst (createUserEmbedding (sconst 0.25) u) \<noteq> fst (createUserEmbedding (sconst 0.75) u)"
  by (simp add: createProductEmbedding_def encodeCategoryFeatures_def createUserEmbedding_def
      encodeCategoryPreferences_def Math_random_def Let_def)

lemma createProductEmbedding_example:
  "fst (createProductEmbedding (\<lambda>text. [0.02, 0.1, 0]) (sconst 0.25) product_P1) =
     [0.02, 0.01, 0.8, 0.25, 0.25, 0.25, 0.1, 0.2, 0, 0, 1, 0, 0, 0.02, 0.1, 0]"
  by (simp add: createProductEmbedding_def encodeCategoryFeatures_def Math_random_def Let_def
      encodeAttributeFeatures_def encodeSeasonalFeatures_def seasonMap_def product_P1_def)

subsection \<open>getCollaborativeRecommendations\<close>

lemma recommendProduct_upsert:
  "recommendProduct m uv sv s j recs = fold upsert (offers m uv sv s [j]) recs"
  by (cases "element sv j")
    (simp_all add: recommendProduct_def offers_def reals_def upsert_def Let_def split: option.splits)

lemma offers_Cons: "offers m uv sv s (j # js) = offers m uv sv s [j] @ offers m uv sv s js"
  by (simp add: offers_def)

lemma fold_recommendProduct:
  "fold (recommendProduct m uv sv s) js recs = fold upsert (offers m uv sv s js) recs"
proof (induction js arbitrary: recs)
  case Nil
  then show ?case by (simp add: offers_def)
next
  case (Cons j js)
  have "fold (recommendProduct m uv sv s) (j # js) recs =
        fold (recommendProduct m uv sv s) js (recommendProduct m uv sv s j recs)"
    by simp
  also have "\<dots> = fold upsert (offers m uv sv s js) (recommendProduct m uv sv s j recs)"
    by (rule Cons.IH)
  also have "\<dots> = fold upsert (offers m uv sv s js) (fold upsert (offers m uv sv s [j]) recs)"
    by (simp only: recommendProduct_upsert)
  also have "\<dots> = fold upsert (offers m uv sv s (j # js)) recs"
    by (simp only: offers_Cons [of m uv sv s j js] fold_append comp_apply)
  finally show ?case .
qed

lemma upsert_keys:
  "map fst (upsert kv recs) =
     (if fst kv \<in> set (map fst recs) then map fst recs else map fst recs @ [fst kv])"
  by (auto simp: upsert_def update_keys_append split: option.splits)

lemma upsert_valueOf:
  "valueOf (upsert kv recs) k = valueOf recs k + (if fst kv = k then snd kv else 0)"
  by (auto simp: valueOf_def upsert_def update_conv' split: option.splits)

lemma fold_upsert_keys:
  "map fst (fold upsert kvs recs) = firstSeen (map fst recs) (map fst kvs)"
proof (induction kvs arbitrary: recs)
  case Nil
  then show ?case by (simp add: firstSeen_def)
next
  case (Cons kv kvs)
  show ?case using Cons.IH [of "upsert kv recs"]
    by (simp add: firstSeen_def upsert_keys)
qed

lemma fold_upsert_valueOf:
  "valueOf (fold upsert kvs recs) k =
     valueOf recs k + sum_list (map snd (filter (\<lambda>kv. fst kv = k) kvs))"
proof (induction kvs arbitrary: recs)
  case Nil
  then show ?case by simp
next
  case (Cons kv kvs)
  show ?case using Cons.IH [of "upsert kv recs"]
    by (simp add: upsert_valueOf)
qed

lemma distinct_keys_entries:
  assumes "distinct (map fst recs)"
  shows "recs = map (\<lambda>k. (k, valueOf recs k)) (map fst recs)"
proof -
  have "\<And>kv. kv \<in> set recs \<Longrightarrow> (fst kv, valueOf recs (fst kv)) = kv"
  proof -
    fix kv assume "kv \<in> set recs"
    then have "(fst kv, snd kv) \<in> set recs" by simp
    then have "map_of recs (fst kv) = Some (snd kv)" using assms
      by (simp only: map_of_eq_Some_iff)
    then show "(fst kv, valueOf recs (fst kv)) = kv" by (simp add: valueOf_def)
  qed
  then have "map (\<lambda>kv. (fst kv, valueOf recs (fst kv))) recs = recs"
    by (simp add: map_idI)
  then show ?thesis by (simp add: comp_def)
qed

lemma fold_upsert_entries:
  "fold upsert kvs [] =
   map (\<lambda>k. (k, sum_list (map snd (filter (\<lambda>kv. fst kv = k) kvs)))) (firstSeen [] (map fst kvs))"
proof -
  let ?recs = "fold upsert kvs []"
  have keys: "map fst ?recs = firstSeen [] (map fst kvs)"
    using fold_upsert_keys [of kvs "[]"] by simp
  then have "distinct (map fst ?recs)" by (simp add: distinct_firstSeen)
  from distinct_keys_entries [OF this]
  have "?recs = map (\<lambda>k. (k, valueOf ?recs k)) (firstSeen [] (map fst kvs))"
    by (simp only: keys)
  moreover have "\<And>k. valueOf ?recs k = sum_list (map snd (filter (\<lambda>kv. fst kv = k) kvs))"
    by (simp add: fold_upsert_valueOf) (simp add: valueOf_def)
  ultimately show ?thesis by simp
qed

lemma fold_neighbours:
  "fold (\<lambda>(n, s). fold (recommendProduct m uv (matrix m ! n) s) [0..<length (matrix m ! n)])
      nbs recs =
   fold upsert (concat (map (\<lambda>(n, s). offers m uv (matrix m ! n) s [0..<length (matrix m ! n)]) nbs))
     recs"
  (is "fold ?F nbs recs = fold upsert (concat (map ?G nbs)) recs")
proof (induction nbs arbitrary: recs)
  case Nil
  then show ?case by simp
next
  case (Cons p nbs)
  have step: "?F p recs = fold upsert (?G p) recs"
    by (cases p) (simp add: fold_recommendProduct)
  have "fold ?F (p # nbs) recs = fold ?F nbs (?F p recs)"
    by simp
  also have "\<dots> = fold upsert (concat (map ?G nbs)) (?F p recs)"
    by (rule Cons.IH)
  also have "\<dots> = fold upsert (concat (map ?G nbs)) (fold upsert (?G p) recs)"
    by (simp only: step)
  also have "\<dots> = fold upsert (concat (map ?G (p # nbs))) recs"
    by simp
  finally show ?case .
qed

lemma squares_Num:
  "foldl (\<lambda>sum a. add sum (mul a a)) (Num s) (map Num xs) = Num (s + (\<Sum>x\<leftarrow>xs. x ^ 2))"
  by (induction xs arbitrary: s) (simp_all add: power2_eq_square algebra_simps)

lemma foldl_NaN_squares: "foldl (\<lambda>sum a. add sum (mul a a)) NaN v = NaN"
  by (induction v) simp_all

lemma squares_NaN:
  "NaN \<in> set v \<Longrightarrow> foldl (\<lambda>sum a. add sum (mul a a)) acc v = NaN"
proof (induction v arbitrary: acc)
  case Nil
  then show ?case by simp
next
  case (Cons x xs)
  show ?case
  proof (cases "x = NaN")
    case True
    have "add acc (mul NaN NaN) = NaN" by (cases acc) simp_all
    then show ?thesis using True by (simp add: foldl_NaN_squares)
  next
    case False
    with Cons show ?thesis by simp
  qed
qed

lemma dot_Num:
  "foldl (\<lambda>sum (x, y). add sum (mul x y)) (Num s) (zip (map Num a) (map Num b)) =
   Num (s + (\<Sum>(x, y)\<leftarrow>zip a b. x * y))"
proof (induction a arbitrary: b s)
  case Nil
  then show ?case by simp
next
  case (Cons x xs)
  then show ?case by (cases b) (simp_all add: algebra_simps)
qed

lemma real_row_Some: "real_row v = Some r \<Longrightarrow> v = map Num r"
proof -
  assume "real_row v = Some r"
  then have n: "NaN \<notin> set v" and r: "r = map (\<lambda>x. case x of Num r \<Rightarrow> r | NaN \<Rightarrow> 0) v"
    by (auto simp: real_row_def split: if_splits)
  have "map Num (map (\<lambda>x. case x of Num r \<Rightarrow> r | NaN \<Rightarrow> 0) v) = v"
    using n by (induction v) (auto split: number.splits)
  with r show ?thesis by simp
qed

lemma squares_nonneg: "0 \<le> (\<Sum>x\<leftarrow>a. (x::real) ^ 2)"
  by (rule sum_list_nonneg) auto

lemma cosineSimilarity_real:
  assumes "length a = length b"
  shows "cosineSimilarity (map Num a) (map Num b) = Num (reference_cosine a b)"
proof -
  have "foldl (\<lambda>sum (x, i). add sum (mul x (element (map Num b) i))) (Num 0)
          (zip (map Num a) [0..<0 + length (map Num a)]) =
        foldl (\<lambda>sum (x, y). add sum (mul x y)) (Num 0) (zip (map Num a) (drop 0 (map Num b)))"
    by (rule dot_indexed) (simp add: assms)
  then have dot: "foldl (\<lambda>sum (x, i). add sum (mul x (element (map Num b) i))) (Num 0)
          (zip (map Num a) [0..<length (map Num a)]) = Num (dot_product a b)"
    by (simp add: dot_Num dot_product_def)
  have na: "Math_sqrt (foldl (\<lambda>sum a. add sum (mul a a)) (Num 0) (map Num a)) = Num (l2_norm a)"
    by (simp add: squares_Num l2_norm_def not_less squares_nonneg)
  have nb: "Math_sqrt (foldl (\<lambda>sum a. add sum (mul a a)) (Num 0) (map Num b)) = Num (l2_norm b)"
    by (simp add: squares_Num l2_norm_def not_less squares_nonneg)
  show ?thesis
    unfolding cosineSimilarity_def Let_def dot na nb
    by (simp add: reference_cosine_def)
qed

lemma cosineSimilarity_not_real:
  assumes "NaN \<in> set a \<or> NaN \<in> set b"
  shows "cosineSimilarity a b = NaN \<or> cosineSimilarity a b = Num 0"
proof -
  from assms have "Math_sqrt (foldl (\<lambda>sum a. add sum (mul a a)) (Num 0) a) = NaN \<or>
      Math_sqrt (foldl (\<lambda>sum a. add sum (mul a a)) (Num 0) b) = NaN"
    by (auto simp: squares_NaN)
  then show ?thesis
  proof
    assume "Math_sqrt (foldl (\<lambda>sum a. add sum (mul a a)) (Num 0) a) = NaN"
    then show ?thesis by (simp add: cosineSimilarity_def Let_def)
  next
    assume b: "Math_sqrt (foldl (\<lambda>sum a. add sum (mul a a)) (Num 0) b) = NaN"
    have "\<And>x y. divide_number x (mul y NaN) = NaN"
      by (simp add: mul_commute [of _ NaN])
    then show ?thesis by (simp add: cosineSimilarity_def Let_def b)
  qed
qed

lemma wf_row_length:
  "wf_matrix m \<Longrightarrow> n < length (userIds m) \<Longrightarrow> length (matrix m ! n) = length (productIds m)"
  by (simp add: wf_matrix_def list_all_length)

lemma similarUsers_reference:
  assumes wf: "wf_matrix m" and u: "u < length (userIds m)"
  shows "similarUsers m u (matrix m ! u) = reference_similar m u"
proof -
  let ?uv = "matrix m ! u"
  have len: "length (matrix m) = length (userIds m)" using wf by (simp add: wf_matrix_def)
  have each: "\<And>i. i \<in> set [0..<length (userIds m)] \<Longrightarrow>
      (if i \<noteq> u
       then (case cosineSimilarity ?uv (matrix m ! i) of
               Num similarity \<Rightarrow> if similarity > 0.1 then [(i, similarity)] else []
             | NaN \<Rightarrow> [])
       else []) =
      (case (real_row ?uv, real_row (matrix m ! i)) of
         (Some a, Some b) \<Rightarrow>
           if i \<noteq> u \<and> reference_cosine a b > 0.1 then [(i, reference_cosine a b)] else []
       | _ \<Rightarrow> [])"
  proof -
    fix i assume "i \<in> set [0..<length (userIds m)]"
    then have i: "i < length (userIds m)" by simp
    have same: "length ?uv = length (matrix m ! i)"
      by (simp add: wf_row_length [OF wf u] wf_row_length [OF wf i])
    show "(if i \<noteq> u
       then (case cosineSimilarity ?uv (matrix m ! i) of
               Num similarity \<Rightarrow> if similarity > 0.1 then [(i, similarity)] else []
             | NaN \<Rightarrow> [])
       else []) =
      (case (real_row ?uv, real_row (matrix m ! i)) of
         (Some a, Some b) \<Rightarrow>
           if i \<noteq> u \<and> reference_cosine a b > 0.1 then [(i, reference_cosine a b)] else []
       | _ \<Rightarrow> [])"
    proof (cases "real_row ?uv = None \<or> real_row (matrix m ! i) = None")
      case True
      then have "NaN \<in> set ?uv \<or> NaN \<in> set (matrix m ! i)"
        by (auto simp: real_row_def split: if_splits)
      from cosineSimilarity_not_real [OF this] True show ?thesis
        by (auto split: option.splits)
    next
      case False
      then obtain a b where a: "real_row ?uv = Some a" and b: "real_row (matrix m ! i) = Some b"
        by auto
      have ua: "?uv = map Num a" and ib: "matrix m ! i = map Num b"
        using a b by (simp_all add: real_row_Some)
      have "length a = length b" using same ua ib by (metis length_map)
      from cosineSimilarity_real [OF this]
      have "cosineSimilarity ?uv (matrix m ! i) = Num (reference_cosine a b)"
        by (simp only: ua ib)
      then show ?thesis by (simp add: a b)
    qed
  qed
  show ?thesis
    unfolding similarUsers_def reference_similar_def len
    by (rule arg_cong [where f = concat], rule map_cong) (simp_all only: each)
qed

lemma concat_single_index:
  "j < n \<Longrightarrow> concat (map (\<lambda>j'. if j' = j then xs else []) [0..<n]) = xs"
proof (induction n)
  case 0
  then show ?case by simp
next
  case (Suc n)
  show ?case
  proof (cases "j = n")
    case True
    have "concat (map (\<lambda>j'. if j' = j then xs else []) [0..<n]) = []"
      using True by auto
    then show ?thesis using True by simp
  next
    case False
    with Suc show ?thesis by simp
  qed
qed

lemma offers_concat:
  "offers m uv sv s js = concat (map (\<lambda>j. offers m uv sv s [j]) js)"
  by (simp add: offers_def)

lemma offers_key:
  assumes d: "distinct (productIds m)" and j: "j < length (productIds m)"
    and sv: "length sv = length (productIds m)" and uv: "length uv = length (productIds m)"
  shows "map snd (filter (\<lambda>kv. fst kv = productIds m ! j)
                    (offers m uv sv s [0..<length (productIds m)])) =
         [c * s. c \<leftarrow> reals (sv ! j), uv ! j = Num 0, c > 0]"
    (is "?lhs = ?H")
proof -
  let ?n = "length (productIds m)"
  have one: "\<And>j'. j' \<in> set [0..<?n] \<Longrightarrow>
      map snd (filter (\<lambda>kv. fst kv = productIds m ! j) (offers m uv sv s [j'])) =
      (if j' = j then ?H else [])"
  proof -
    fix j' assume "j' \<in> set [0..<?n]"
    then have j': "j' < ?n" by simp
    show "map snd (filter (\<lambda>kv. fst kv = productIds m ! j) (offers m uv sv s [j'])) =
      (if j' = j then ?H else [])"
    proof (cases "j' = j")
      case True
      then show ?thesis using j sv uv
        by (cases "sv ! j") (simp_all add: offers_def element_def reals_def)
    next
      case False
      then have "productIds m ! j' \<noteq> productIds m ! j"
        using d j j' by (simp add: nth_eq_iff_index_eq)
      then show ?thesis using False
        by (cases "element sv j'") (simp_all add: offers_def reals_def)
    qed
  qed
  have "?lhs = concat (map (\<lambda>j'. map snd (filter (\<lambda>kv. fst kv = productIds m ! j)
                                            (offers m uv sv s [j']))) [0..<?n])"
    by (subst offers_concat) (simp add: filter_concat map_concat comp_def)
  also have "\<dots> = concat (map (\<lambda>j'. if j' = j then ?H else []) [0..<?n])"
    by (rule arg_cong [where f = concat], rule map_cong) (simp_all only: one)
  also have "\<dots> = ?H"
    by (rule concat_single_index [OF j])
  finally show ?thesis .
qed

lemma offers_keys_in_range:
  "kv \<in> set (offers m uv sv s js) \<Longrightarrow> \<exists>j\<in>set js. fst kv = productIds m ! j"
  by (auto simp: offers_def)

lemma reference_neighbours_in_range:
  "(n, s) \<in> set (reference_neighbours m u) \<Longrightarrow> n < length (userIds m)"
proof -
  assume "(n, s) \<in> set (reference_neighbours m u)"
  then have "(n, s) \<in> set (reference_similar m u)"
    unfolding reference_neighbours_def by (auto dest: in_set_takeD)
  then show ?thesis by (auto simp: reference_similar_def split: option.splits if_splits)
qed

lemma neighbour_offers_key:
  assumes wf: "wf_matrix m" and d: "distinct (productIds m)" and u: "u < length (userIds m)"
    and j: "j < length (productIds m)"
  shows "map snd (filter (\<lambda>kv. fst kv = productIds m ! j) (neighbour_offers m u)) =
         reference_contributions m u j"
proof -
  let ?uv = "matrix m ! u"
  have uv: "length ?uv = length (productIds m)" by (rule wf_row_length [OF wf u])
  have each: "\<And>p. p \<in> set (reference_neighbours m u) \<Longrightarrow>
      map snd (filter (\<lambda>kv. fst kv = productIds m ! j)
         (case p of (n, s) \<Rightarrow> offers m ?uv (matrix m ! n) s [0..<length (matrix m ! n)])) =
      (case p of (n, s) \<Rightarrow> [c * s. c \<leftarrow> reals (matrix m ! n ! j), ?uv ! j = Num 0, c > 0])"
  proof -
    fix p assume p: "p \<in> set (reference_neighbours m u)"
    obtain n s where ns: "p = (n, s)" by (cases p)
    with p have "n < length (userIds m)" by (auto dest: reference_neighbours_in_range)
    then have sv: "length (matrix m ! n) = length (productIds m)" by (rule wf_row_length [OF wf])
    show "map snd (filter (\<lambda>kv. fst kv = productIds m ! j)
         (case p of (n, s) \<Rightarrow> offers m ?uv (matrix m ! n) s [0..<length (matrix m ! n)])) =
      (case p of (n, s) \<Rightarrow> [c * s. c \<leftarrow> reals (matrix m ! n ! j), ?uv ! j = Num 0, c > 0])"
      using offers_key [OF d j sv uv, of s] by (simp add: ns sv)
  qed
  have "map snd (filter (\<lambda>kv. fst kv = productIds m ! j) (neighbour_offers m u)) =
        concat (map (\<lambda>p. map snd (filter (\<lambda>kv. fst kv = productIds m ! j)
           (case p of (n, s) \<Rightarrow> offers m ?uv (matrix m ! n) s [0..<length (matrix m ! n)])))
           (reference_neighbours m u))"
    by (simp add: neighbour_offers_def filter_concat map_concat comp_def)
  also have "\<dots> = concat (map (\<lambda>p. case p of (n, s) \<Rightarrow>
        [c * s. c \<leftarrow> reals (matrix m ! n ! j), ?uv ! j = Num 0, c > 0]) (reference_neighbours m u))"
    by (rule arg_cong [where f = concat], rule map_cong) (simp_all only: each)
  also have "\<dots> = reference_contributions m u j"
    by (simp add: reference_contributions_def)
  finally show ?thesis .
qed

lemma neighbour_offers_keys:
  assumes wf: "wf_matrix m" and d: "distinct (productIds m)" and u: "u < length (userIds m)"
  shows "set (map fst (neighbour_offers m u)) =
         (\<lambda>j. productIds m ! j) `
           {j. j < length (productIds m) \<and> reference_contributions m u j \<noteq> []}"
proof (intro equalityI subsetI)
  fix k assume "k \<in> set (map fst (neighbour_offers m u))"
  then obtain kv where kv: "kv \<in> set (neighbour_offers m u)" and k: "k = fst kv" by auto
  from kv obtain n s where ns: "(n, s) \<in> set (reference_neighbours m u)"
    and in': "kv \<in> set (offers m (matrix m ! u) (matrix m ! n) s [0..<length (matrix m ! n)])"
    by (auto simp: neighbour_offers_def)
  from ns have "n < length (userIds m)" by (rule reference_neighbours_in_range)
  then have len: "length (matrix m ! n) = length (productIds m)" by (rule wf_row_length [OF wf])
  from offers_keys_in_range [OF in'] obtain j where j: "j < length (productIds m)"
    and key: "fst kv = productIds m ! j"
    by (auto simp: len)
  have "kv \<in> set (filter (\<lambda>kv. fst kv = productIds m ! j) (neighbour_offers m u))"
    using kv key by simp
  then have "map snd (filter (\<lambda>kv. fst kv = productIds m ! j) (neighbour_offers m u)) \<noteq> []"
    by (auto simp: filter_empty_conv)
  then have "reference_contributions m u j \<noteq> []"
    by (simp add: neighbour_offers_key [OF wf d u j])
  with j key k show "k \<in> (\<lambda>j. productIds m ! j) `
           {j. j < length (productIds m) \<and> reference_contributions m u j \<noteq> []}"
    by auto
next
  fix k assume "k \<in> (\<lambda>j. productIds m ! j) `
           {j. j < length (productIds m) \<and> reference_contributions m u j \<noteq> []}"
  then obtain j where j: "j < length (productIds m)" and c: "reference_contributions m u j \<noteq> []"
    and k: "k = productIds m ! j"
    by auto
  from c have "map snd (filter (\<lambda>kv. fst kv = productIds m ! j) (neighbour_offers m u)) \<noteq> []"
    by (simp add: neighbour_offers_key [OF wf d u j])
  then have "filter (\<lambda>kv. fst kv = productIds m ! j) (neighbour_offers m u) \<noteq> []"
    by auto
  then obtain kv where "kv \<in> set (neighbour_offers m u)" "fst kv = productIds m ! j"
    by (auto simp: filter_empty_conv)
  with k show "k \<in> set (map fst (neighbour_offers m u))" by force
qed

lemma getCollaborativeRecommendations_fold:
  assumes wf: "wf_matrix m" and u: "indexOf (userIds m) userId = Some u"
  shows "getCollaborativeRecommendations (Some m) userId limit =
         Inr (take limit (sortByScore
           (map (\<lambda>(productId', score').
                   \<lparr>productId = productId', score = score', rtype = ''collaborative''\<rparr>)
              (fold upsert (neighbour_offers m u) []))))"
proof -
  from u have u': "u < length (userIds m)" using indexOf_Some by fastforce
  then have row: "getRow m u = Inr (matrix m ! u)"
    and len: "length (matrix m) = length (userIds m)"
    using wf by (simp_all add: getRow_def wf_matrix_def)
  show ?thesis
    unfolding getCollaborativeRecommendations_def
    by (simp add: u row Let_def similarUsers_reference [OF wf u'] fold_neighbours
        neighbour_offers_def reference_neighbours_def)
qed

lemma concat_map_if:
  "concat (map (\<lambda>x. if P x then [f x] else []) xs) = map f (filter P xs)"
  by (induction xs) simp_all

lemma reference_ranking:
  assumes wf: "wf_matrix m" and d: "distinct (productIds m)" and u: "u < length (userIds m)"
  shows "mset (map (\<lambda>(productId', score').
                      \<lparr>productId = productId', score = score', rtype = ''collaborative''\<rparr>)
                 (fold upsert (neighbour_offers m u) [])) =
         mset (reference_candidates m u)"
proof -
  let ?C = "neighbour_offers m u"
  let ?keys = "firstSeen [] (map fst ?C)"
  let ?js = "filter (\<lambda>j. reference_contributions m u j \<noteq> []) [0..<length (productIds m)]"
  let ?F = "\<lambda>k. \<lparr>productId = k, score = sum_list (map snd (filter (\<lambda>kv. fst kv = k) ?C)),
                 rtype = ''collaborative''\<rparr>"
  let ?G = "\<lambda>j. \<lparr>productId = productIds m ! j, score = sum_list (reference_contributions m u j),
                 rtype = ''collaborative''\<rparr>"
  have lhs: "map (\<lambda>(productId', score').
                      \<lparr>productId = productId', score = score', rtype = ''collaborative''\<rparr>)
                 (fold upsert ?C []) = map ?F ?keys"
    by (simp add: fold_upsert_entries comp_def)
  have rhs: "reference_candidates m u = map ?G ?js"
    unfolding reference_candidates_def by (rule concat_map_if)
  have dk: "distinct ?keys" by (rule distinct_firstSeen) simp
  have dj: "distinct (map (\<lambda>j. productIds m ! j) ?js)"
    using d by (auto simp: distinct_map inj_on_def nth_eq_iff_index_eq)
  have "set ?keys = set (map (\<lambda>j. productIds m ! j) ?js)"
    using neighbour_offers_keys [OF wf d u] by (auto simp: set_firstSeen)
  with dk dj have keys: "mset ?keys = mset (map (\<lambda>j. productIds m ! j) ?js)"
    by (simp only: set_eq_iff_mset_eq_distinct)
  have "mset (map ?F ?keys) = image_mset ?F (mset ?keys)" by (simp only: mset_map)
  also have "\<dots> = image_mset ?F (mset (map (\<lambda>j. productIds m ! j) ?js))"
    by (simp only: keys)
  also have "\<dots> = mset (map (\<lambda>j. ?F (productIds m ! j)) ?js)"
    by (simp only: mset_map multiset.map_comp comp_def)
  also have "map (\<lambda>j. ?F (productIds m ! j)) ?js = map ?G ?js"
    by (rule map_cong) (simp_all add: neighbour_offers_key [OF wf d u])
  finally show ?thesis by (simp only: lhs rhs)
qed

text \<open>
  C2. On a well-formed matrix with distinct product ids: for a userId that is not among
  the user ids the collaborative recommendations are empty. Otherwise, with \<open>u\<close> the row
  of the user, they are the first \<open>limit\<close> entries of a list that is sorted by score,
  descending, and holds exactly the candidates of the reference computation
  \<^const>\<open>reference_candidates\<close>: one candidate per product that the target row has at 0
  and some kept neighbour has above 0, scored with the sum over those neighbours of the
  neighbour's cell times its similarity, the kept neighbours being the 10 most similar
  other rows with similarity above 0.1, and the similarity being the dot product over
  the product of the L2 norms, 0 when a norm is 0 (\<^const>\<open>reference_cosine\<close>).
\<close>

theorem getCollaborativeRecommendations_reference:
  assumes wf: "wf_matrix m" and d: "distinct (productIds m)"
  shows "(userId \<notin> set (userIds m) \<longrightarrow>
            getCollaborativeRecommendations (Some m) userId limit = Inr []) \<and>
         (\<forall>u. indexOf (userIds m) userId = Some u \<longrightarrow>
            (\<exists>ranked. getCollaborativeRecommendations (Some m) userId limit =
                         Inr (take limit ranked) \<and>
               sorted_wrt (\<lambda>a b. score a \<ge> score b) ranked \<and>
               mset ranked = mset (reference_candidates m u)))"
proof (intro conjI impI allI)
  assume "userId \<notin> set (userIds m)"
  then have "indexOf (userIds m) userId = None" by (simp add: indexOf_None)
  then show "getCollaborativeRecommendations (Some m) userId limit = Inr []"
    by (simp add: getCollaborativeRecommendations_def)
next
  fix u assume u: "indexOf (userIds m) userId = Some u"
  then have u': "u < length (userIds m)" using indexOf_Some by fastforce
  let ?unsorted = "map (\<lambda>(productId', score').
                      \<lparr>productId = productId', score = score', rtype = ''collaborative''\<rparr>)
                 (fold upsert (neighbour_offers m u) [])"
  have "getCollaborativeRecommendations (Some m) userId limit =
      Inr (take limit (sortByScore ?unsorted))"
    by (rule getCollaborativeRecommendations_fold [OF wf u])
  moreover have "sorted (map (\<lambda>r. - score r) (sort_key (\<lambda>r. - score r) ?unsorted))"
    by (rule sorted_sort_key)
  then have "sorted_wrt (\<lambda>a b. score a \<ge> score b) (sortByScore ?unsorted)"
    by (simp add: sorted_map sortByScore_def)
  moreover have "mset (sortByScore ?unsorted) = mset (reference_candidates m u)"
    using reference_ranking [OF wf d u'] by (simp add: sortByScore_def)
  ultimately show "\<exists>ranked. getCollaborativeRecommendations (Some m) userId limit =
                         Inr (take limit ranked) \<and>
               sorted_wrt (\<lambda>a b. score a \<ge> score b) ranked \<and>
               mset ranked = mset (reference_candidates m u)"
    by blast
qed

lemma sqrt_25: "sqrt 25 = 5"
  using real_sqrt_abs [of 5] by simp

text \<open>A run on three users and two products: the third user shares nothing with the
  first, the second is a neighbour with similarity 3/5 and offers the second product
  with cell 4, so that the one candidate is the second product with score 12/5, by the
  code and by the reference computation.\<close>

lemma small_matrix_similarities:
  "cosineSimilarity [Num 1, Num 0] [Num 3, Num 4] = Num (3 / 5) \<and>
   cosineSimilarity [Num 1, Num 0] [Num 0, Num 0] = Num 0"
  by (simp add: cosineSimilarity_def element_def Let_def sqrt_25)

lemma small_matrix_collaborative:
  "getCollaborativeRecommendations (Some small_matrix) ''U0'' 5 =
     Inr [\<lparr>productId = ''P2'', score = 12 / 5, rtype = ''collaborative''\<rparr>]"
  by (simp add: getCollaborativeRecommendations_def small_matrix_def getRow_def similarUsers_def
      small_matrix_similarities recommendProduct_def element_def sortByScore_def Let_def
      upt_rec [of 0] upt_rec [of 1] upt_rec [of 2])

lemma small_matrix_reference_cosine:
  "reference_cosine [1, 0] [3, 4] = 3 / 5 \<and> reference_cosine [1, 0] [0, 0] = 0"
  by (simp add: reference_cosine_def l2_norm_def dot_product_def sqrt_25)

lemma small_matrix_reference:
  "reference_candidates small_matrix 0 =
     [\<lparr>productId = ''P2'', score = 12 / 5, rtype = ''collaborative''\<rparr>]"
proof -
  have sim: "reference_similar small_matrix 0 = [(1, 3 / 5)]"
    by (simp add: reference_similar_def small_matrix_def real_row_def
        small_matrix_reference_cosine upt_rec [of 0] upt_rec [of 1] upt_rec [of 2])
  have nb: "reference_neighbours small_matrix 0 = [(1, 3 / 5)]"
    by (simp add: reference_neighbours_def sim)
  have rows: "matrix small_matrix = [[Num 1, Num 0], [Num 3, Num 4], [Num 0, Num 0]]"
    by (simp add: small_matrix_def)
  have c0: "reference_contributions small_matrix 0 0 = []"
    unfolding reference_contributions_def nb by (simp add: rows reals_def)
  have c1: "reference_contributions small_matrix 0 (Suc 0) = [12 / 5]"
    unfolding reference_contributions_def nb by (simp add: rows reals_def)
  have pids: "productIds small_matrix = [''P1'', ''P2'']" by (simp add: small_matrix_def)
  have cols: "[0..<length [''P1'', ''P2'']] = [0, Suc 0]" by (simp add: upt_rec)
  show ?thesis
    unfolding reference_candidates_def pids cols by (simp add: c0 c1)
qed

theorem getCollaborativeRecommendations_reference_witness:
  "wf_matrix small_matrix \<and> distinct (productIds small_matrix) \<and>
   indexOf (userIds small_matrix) ''U0'' = Some 0 \<and>
   reference_candidates small_matrix 0 =
     [\<lparr>productId = ''P2'', score = 12 / 5, rtype = ''collaborative''\<rparr>] \<and>
   getCollaborativeRecommendations (Some small_matrix) ''U0'' 5 =
     Inr [\<lparr>productId = ''P2'', score = 12 / 5, rtype = ''collaborative''\<rparr>] \<and>
   getCollaborativeRecommendations (Some small_matrix) ''nobody'' 5 = Inr []"
proof -
  have wf: "wf_matrix small_matrix" by (simp add: wf_matrix_def small_matrix_def)
  have d: "distinct (productIds small_matrix)" by (simp add: small_matrix_def)
  have u: "indexOf (userIds small_matrix) ''U0'' = Some 0" by (simp add: small_matrix_def)
  have n: "''nobody'' \<notin> set (userIds small_matrix)" by (simp add: small_matrix_def)
  from getCollaborativeRecommendations_reference [OF wf d, of "''nobody''" 5] n
  have cold: "getCollaborativeRecommendations (Some small_matrix) ''nobody'' 5 = Inr []"
    by blast
  from getCollaborativeRecommendations_reference [OF wf d, of "''U0''" 5] u
  obtain ranked where r: "getCollaborativeRecommendations (Some small_matrix) ''U0'' 5 =
      Inr (take 5 ranked)"
    and m: "mset ranked = mset (reference_candidates small_matrix 0)"
    by blast
  from m have "ranked = [\<lparr>productId = ''P2'', score = 12 / 5, rtype = ''collaborative''\<rparr>]"
    by (simp add: small_matrix_reference)
  with r have "getCollaborativeRecommendations (Some small_matrix) ''U0'' 5 =
     Inr [\<lparr>productId = ''P2'', score = 12 / 5, rtype = ''collaborative''\<rparr>]"
    by simp
  with wf d u cold small_matrix_reference show ?thesis by blast
qed

end
